theory Spec2Isabelle
  imports Complex_Main "HOL-Library.AList"
begin

section \<open>Exceptions\<close>

text \<open>
  Every Python exception the modelled code can raise is a value of \<open>error\<close>; a function
  that may raise returns \<open>error + 'a\<close>, with \<open>Inl\<close> for the exception.
  \<open>raise NotImplemented\<close> raises \<open>TypeError\<close> (\<open>NotImplemented\<close> is not an exception
  class), and \<open>raise Exception(...)\<close> is \<open>PyException\<close>.
\<close>

datatype error =
    NameError | TypeError | IndexError | KeyError | AttributeError | AssertionError
  | ValueError | RuntimeError | UnboundLocalError | PyException

section \<open>The environment base class (gflownet/envs/base.py)\<close>

text \<open>
  \<open>GFlowNetEnv\<close> as a record of the attributes its methods read. Scorer values are
  real numbers, and a float that is NaN or infinite is \<open>None\<close> of \<open>real option\<close>. The
  arithmetic of the model is that of the reals, cut off where a float64 overflows:
  rounding is not modelled, so a value of the model is the value of the code only where
  the code computes without rounding (as at the values the theorems below evaluate).
  The field \<open>env_done\<close> is the attribute \<open>done\<close> and \<open>env_id\<close> is \<open>id\<close>.
  \<open>continuous\<close> is read by \<open>Batch.add_to_batch\<close> but set by no method of base.py:
  it is an attribute of the concrete environments, and \<open>None\<close> in an environment that
  does not have it.
  Type annotations are not modelled (the return annotation of \<open>statebatch2proxy\<close>
  names \<open>ndt\<close>, which the module does not import): each method is modelled as it runs
  once the class is defined.
\<close>

record ('s, 'a) GFlowNetEnv =
  state :: 's
  env_done :: bool
  n_actions :: int
  env_id :: int
  min_reward :: real
  reward_beta :: real
  reward_norm :: real
  reward_func :: string
  energies_stats :: "real list option"
  denorm_proxy :: bool
  proxy :: "('s list \<Rightarrow> real list) option"
  action_space :: "'a list"
  eos :: int
  continuous :: "bool option"

text \<open>\<open>np.array(0.0)\<close> is a 0-dimensional array, the other results are 1-dimensional.\<close>

datatype ndarray = Scalar "real option" | Array "real option list"

subsection \<open>Reward shaping\<close>

text \<open>
  The float64 values inside the shaping: a finite value (\<open>Finite 0\<close> is \<open>+0.0\<close>), the
  negative zero, the two infinities and NaN. The operations below are those of numpy on
  float64 (IEEE 754, and C's \<open>pow\<close> and \<open>exp\<close>), but for the rounding of a finite result:
  a result whose magnitude is at least \<open>float_overflow\<close> (half a unit in the last place
  above the largest float) is an infinity, and any other result is taken as the real
  number.
\<close>

datatype npfloat = Finite real | NegZero | PosInf | NegInf | NaN

definition float_overflow :: real where
  "float_overflow = (2 - 1 / 2 ^ 53) * 2 ^ 1023"

definition np_float :: "real \<Rightarrow> npfloat" where
  "np_float x =
     (if float_overflow \<le> x then PosInf
      else if x \<le> - float_overflow then NegInf
      else Finite x)"

definition is_neg :: "npfloat \<Rightarrow> bool" where
  "is_neg x = (case x of Finite r \<Rightarrow> r < 0 | NegZero \<Rightarrow> True | NegInf \<Rightarrow> True | _ \<Rightarrow> False)"

definition is_zero :: "npfloat \<Rightarrow> bool" where
  "is_zero x = (x = Finite 0 \<or> x = NegZero)"

definition is_inf :: "npfloat \<Rightarrow> bool" where
  "is_inf x = (x = PosInf \<or> x = NegInf)"

definition signed_zero :: "bool \<Rightarrow> npfloat" where
  "signed_zero neg = (if neg then NegZero else Finite 0)"

definition signed_inf :: "bool \<Rightarrow> npfloat" where
  "signed_inf neg = (if neg then NegInf else PosInf)"

definition val :: "npfloat \<Rightarrow> real" where
  "val x = (case x of Finite r \<Rightarrow> r | _ \<Rightarrow> 0)"

text \<open>\<open>a * b\<close>: an infinity times a zero is NaN; the sign is the product of the signs.\<close>

definition np_mul :: "npfloat \<Rightarrow> npfloat \<Rightarrow> npfloat" where
  "np_mul a b =
     (if a = NaN \<or> b = NaN then NaN
      else if is_inf a then (if is_zero b then NaN else signed_inf (is_neg a \<noteq> is_neg b))
      else if is_inf b then (if is_zero a then NaN else signed_inf (is_neg a \<noteq> is_neg b))
      else if is_zero a \<or> is_zero b then signed_zero (is_neg a \<noteq> is_neg b)
      else np_float (val a * val b))"

text \<open>
  \<open>a + b\<close>: the two infinities add to NaN; a zero sum is \<open>+0.0\<close> unless both terms are
  \<open>-0.0\<close>.
\<close>

definition np_add :: "npfloat \<Rightarrow> npfloat \<Rightarrow> npfloat" where
  "np_add a b =
     (if a = NaN \<or> b = NaN then NaN
      else if is_inf a then (if is_inf b \<and> a \<noteq> b then NaN else a)
      else if is_inf b then b
      else if is_zero a \<and> is_zero b
        then (if a = NegZero \<and> b = NegZero then NegZero else Finite 0)
      else np_float (val a + val b))"

text \<open>
  \<open>a / b\<close> on arrays raises nothing: a zero or an infinity divided by its like is NaN,
  anything else divided by a zero is an infinity.
\<close>

definition np_div :: "npfloat \<Rightarrow> npfloat \<Rightarrow> npfloat" where
  "np_div a b =
     (if a = NaN \<or> b = NaN then NaN
      else if is_inf a then (if is_inf b then NaN else signed_inf (is_neg a \<noteq> is_neg b))
      else if is_inf b then signed_zero (is_neg a \<noteq> is_neg b)
      else if is_zero b then (if is_zero a then NaN else signed_inf (is_neg a \<noteq> is_neg b))
      else if is_zero a then signed_zero (is_neg a \<noteq> is_neg b)
      else np_float (val a / val b))"

text \<open>
  \<open>x ** y\<close> for a finite exponent \<open>y\<close>: anything to the power 0 is 1; a negative base
  with an exponent that is not a whole number is NaN; a zero to a negative exponent is
  an infinity; a negative base (also \<open>-0.0\<close> and \<open>-inf\<close>) keeps its sign only for an odd
  whole exponent.
\<close>

definition np_power :: "npfloat \<Rightarrow> real \<Rightarrow> npfloat" where
  "np_power x y =
     (if y = 0 then Finite 1
      else if x = NaN then NaN
      else
        (let odd_int = (y = of_int \<lfloor>y\<rfloor> \<and> odd \<lfloor>y\<rfloor>) in
         if is_zero x
         then (if 0 < y then signed_zero (is_neg x \<and> odd_int)
               else signed_inf (is_neg x \<and> odd_int))
         else if is_inf x
         then (if 0 < y then signed_inf (is_neg x \<and> odd_int)
               else signed_zero (is_neg x \<and> odd_int))
         else if 0 < val x then np_float (val x powr y)
         else if y = of_int \<lfloor>y\<rfloor>
         then np_float ((if odd \<lfloor>y\<rfloor> then - 1 else 1) * (\<bar>val x\<bar> powr y))
         else NaN))"

definition np_exp :: "npfloat \<Rightarrow> npfloat" where
  "np_exp x =
     (case x of
        NaN \<Rightarrow> NaN
      | PosInf \<Rightarrow> PosInf
      | NegInf \<Rightarrow> Finite 0
      | NegZero \<Rightarrow> Finite 1
      | Finite r \<Rightarrow> np_float (exp r))"

text \<open>
  \<open>np.clip(x, lo, None)\<close> for a finite bound \<open>lo\<close>: NaN stays NaN, \<open>+inf\<close> stays, \<open>-inf\<close>
  becomes \<open>lo\<close>. The result is a scorer value of the record: \<open>None\<close> when it is NaN or
  infinite.
\<close>

definition np_clip :: "npfloat \<Rightarrow> real \<Rightarrow> real option" where
  "np_clip x lo =
     (case x of
        NaN \<Rightarrow> None
      | PosInf \<Rightarrow> None
      | NegInf \<Rightarrow> Some lo
      | NegZero \<Rightarrow> Some (max 0 lo)
      | Finite r \<Rightarrow> Some (max r lo))"

text \<open>
  \<open>proxy2reward\<close>, element by element, on finite scorer values (a zero among them is
  \<open>+0.0\<close>). \<open>self.energies_stats[3]\<close> on \<open>None\<close> raises \<open>TypeError\<close>, and so does
  \<open>raise NotImplemented\<close>, which is not an exception.
\<close>

definition proxy2reward ::
  "('s, 'a) GFlowNetEnv \<Rightarrow> real list \<Rightarrow> error + real option list" where
  "proxy2reward self proxy_vals =
     (case (if denorm_proxy self
            then (case energies_stats self of
                    None \<Rightarrow> Inl TypeError
                  | Some st \<Rightarrow>
                      if length st < 4 then Inl IndexError
                      else Inr (map (\<lambda>v. np_add (np_mul (Finite v) (Finite (st ! 3)))
                                             (Finite (st ! 2))) proxy_vals))
            else Inr (map Finite proxy_vals)) of
        Inl e \<Rightarrow> Inl e
      | Inr vals \<Rightarrow>
          if reward_func self = ''power''
          then Inr (map (\<lambda>v. np_clip
                               (np_power (np_div (np_mul (Finite (- 1)) v)
                                                 (Finite (reward_norm self)))
                                         (reward_beta self))
                               (min_reward self)) vals)
          else if reward_func self = ''boltzmann''
          then Inr (map (\<lambda>v. np_clip
                               (np_exp (np_mul (np_mul (Finite (- 1)) (Finite (reward_beta self)))
                                               v))
                               (min_reward self)) vals)
          else Inl TypeError)"

subsection \<open>Conversions and reward\<close>

text \<open>\<open>statebatch2proxy\<close> is \<open>np.array(states)\<close>; \<open>state2proxy\<close> is a batch of one.\<close>

definition statebatch2proxy :: "('s, 'a) GFlowNetEnv \<Rightarrow> 's list \<Rightarrow> 's list" where
  "statebatch2proxy self sts = sts"

definition state2proxy :: "('s, 'a) GFlowNetEnv \<Rightarrow> 's option \<Rightarrow> 's list" where
  "state2proxy self st =
     (let s = (case st of None \<Rightarrow> state self | Some s \<Rightarrow> s)
      in statebatch2proxy self [s])"

text \<open>
  \<open>reward(state, done)\<close>; an argument left at its default is \<open>None\<close>. Calling a proxy
  that is \<open>None\<close> raises \<open>TypeError\<close>.
\<close>

definition reward ::
  "('s, 'a) GFlowNetEnv \<Rightarrow> 's option \<Rightarrow> bool option \<Rightarrow> error + ndarray" where
  "reward self st dn =
     (let d = (case dn of None \<Rightarrow> env_done self | Some d \<Rightarrow> d) in
      if d then Inr (Scalar (Some 0))
      else
        (let s = (case st of None \<Rightarrow> state self | Some s \<Rightarrow> s) in
         case proxy self of
           None \<Rightarrow> Inl TypeError
         | Some f \<Rightarrow>
             (case proxy2reward self (f (state2proxy self (Some s))) of
                Inl e \<Rightarrow> Inl e
              | Inr r \<Rightarrow> Inr (Array r))))"

text \<open>
  \<open>reward_batch(states, done)\<close>: zeros, with the shaped scores written at the rows whose
  flag is set. The array of no state has one dimension and cannot be indexed with two
  indices (\<open>IndexError\<close>); an empty list of flags selects no row and gives the empty
  array; otherwise the boolean index needs one flag per state, and the assignment as
  many values as flags that are set, or a single value.
\<close>

fun scatter_done :: "bool list \<Rightarrow> real option list \<Rightarrow> real option list" where
  "scatter_done [] vs = []"
| "scatter_done (True # ds) (v # vs) = v # scatter_done ds vs"
| "scatter_done (True # ds) [] = Some 0 # scatter_done ds []"
| "scatter_done (False # ds) vs = Some 0 # scatter_done ds vs"

definition reward_batch ::
  "('s, 'a) GFlowNetEnv \<Rightarrow> 's list \<Rightarrow> bool list \<Rightarrow> error + real option list" where
  "reward_batch self sts dn =
     (if statebatch2proxy self sts = [] then Inl IndexError
      else if dn = [] then Inr []
      else if length dn \<noteq> length (statebatch2proxy self sts) then Inl IndexError
      else
        (let states_proxy = map fst (filter snd (zip (statebatch2proxy self sts) dn)) in
         if length states_proxy > 0
         then (case proxy self of
                 None \<Rightarrow> Inl TypeError
               | Some f \<Rightarrow>
                   (case proxy2reward self (f states_proxy) of
                      Inl e \<Rightarrow> Inl e
                    | Inr r \<Rightarrow>
                        if length r = length states_proxy then Inr (scatter_done dn r)
                        else if length r = 1
                        then Inr (map (\<lambda>d. if d then hd r else Some 0) dn)
                        else Inl ValueError))
         else Inr (map (\<lambda>_. Some 0) dn)))"

subsection \<open>step\<close>

text \<open>
  The body of \<open>step\<close> reads the name \<open>action\<close>. \<open>step_body\<close> is that body for a given
  binding of the name: it never consults \<open>get_mask_invalid_actions_forward\<close>, and
  \<open>valid\<close> is \<open>True\<close> on both branches.
\<close>

definition step_body ::
  "('s, 'a) GFlowNetEnv \<Rightarrow> int \<Rightarrow> ('s, 'a) GFlowNetEnv \<times> ('s \<times> int \<times> bool)" where
  "step_body self action =
     (if action < eos self
      then (let self' = self\<lparr>env_done := False\<rparr> in (self', (state self', action, True)))
      else (let self' = self\<lparr>env_done := True, n_actions := n_actions self + 1\<rparr>
            in (self', (state self', action, True))))"

text \<open>
  The integer names bound in the body of \<open>step(self, action_idx)\<close>. The module binds
  only its imports and the two classes, and \<open>action\<close> is no builtin, so a name that is
  not local is not bound at all.
\<close>

definition step_locals :: "int \<Rightarrow> (string \<times> int) list" where
  "step_locals action_idx = [(''action_idx'', action_idx)]"

definition step ::
  "('s, 'a) GFlowNetEnv \<Rightarrow> int
     \<Rightarrow> error + (('s, 'a) GFlowNetEnv \<times> ('s \<times> int \<times> bool))" where
  "step self action_idx =
     (case map_of (step_locals action_idx) ''action'' of
        None \<Rightarrow> Inl NameError
      | Some action \<Rightarrow> Inr (step_body self action))"

text \<open>
  \<open>get_mask_invalid_actions_forward(state, done)\<close>: no action is masked, whatever the
  arguments.
\<close>

definition get_mask_invalid_actions_forward ::
  "('s, 'a) GFlowNetEnv \<Rightarrow> 's option \<Rightarrow> bool option \<Rightarrow> bool list" where
  "get_mask_invalid_actions_forward self st dn =
     (let s = (case st of None \<Rightarrow> state self | Some s \<Rightarrow> s);
          d = (case dn of None \<Rightarrow> env_done self | Some d \<Rightarrow> d)
      in map (\<lambda>_. False) (action_space self))"

text \<open>\<open>get_mask_invalid_actions_backward\<close> is \<open>pass\<close>: it returns \<open>None\<close>.\<close>

definition get_mask_invalid_actions_backward ::
  "('s, 'a) GFlowNetEnv \<Rightarrow> 's option \<Rightarrow> bool option \<Rightarrow> bool list option" where
  "get_mask_invalid_actions_backward self st dn = None"

text \<open>
  The environment \<open>GFlowNetEnv(env_id=i)\<close> after construction, with the attributes that
  the constructor takes as arguments given: the state is the empty list, and there is no
  attribute \<open>continuous\<close>.
\<close>

definition GFlowNetEnv_init ::
  "int \<Rightarrow> real \<Rightarrow> real \<Rightarrow> string \<Rightarrow> (int list list \<Rightarrow> real list) option
     \<Rightarrow> (int list, int) GFlowNetEnv" where
  "GFlowNetEnv_init i beta nrm func prx =
     \<lparr>state = [], env_done = False, n_actions = 0, env_id = i, min_reward = 1 / 10 ^ 8,
      reward_beta = beta, reward_norm = nrm, reward_func = func,
      energies_stats = None, denorm_proxy = False, proxy = prx,
      action_space = [], eos = 0, continuous = None\<rparr>"

section \<open>The batch (gflownet/utils/batch.py)\<close>

text \<open>
  \<open>Batch\<close> as a record. \<open>b_env\<close>, \<open>b_continuous\<close>, \<open>b_size\<close> and \<open>b_done\<close> are the
  attributes \<open>env\<close>, \<open>continuous\<close>, \<open>size\<close> and \<open>done\<close>. The two ordered dictionaries
  are association lists in insertion order with distinct keys; a column is a list, and
  a column that \<open>merge\<close> sets to \<open>None\<close> is \<open>None\<close>. \<open>rewards\<close> does not exist before
  \<open>_compute_rewards\<close> or \<open>merge\<close> assigns it, and no method reads it while
  \<open>rewards_available\<close> is \<open>False\<close>: it starts as \<open>None\<close>. \<open>masks_forward\<close> and
  \<open>masks_backward\<close> are attributes that only \<open>merge\<close> assigns. \<open>envs\<close> holds the
  environments as they were when their first row was added; of an environment held
  there the batch reads the id and calls methods that do not depend on its state.
\<close>

datatype attr = Unset | PyNone

record ('s, 'a) Batch =
  b_env :: "('s, 'a) GFlowNetEnv option"
  conditional :: "bool option"
  b_continuous :: "bool option"
  b_size :: nat
  envs :: "(int \<times> ('s, 'a) GFlowNetEnv) list"
  trajectories :: "(int \<times> nat list) list"
  traj_indices :: "int list"
  state_indices :: "int list"
  states :: "'s list"
  actions :: "'a list"
  b_done :: "bool list"
  masks_invalid_actions_forward :: "bool list option list"
  masks_invalid_actions_backward :: "bool list option list"
  parents :: "'s list option"
  parents_all :: "'s list option"
  states_policy :: "'s list option"
  parents_policy :: "'s list option"
  rewards :: "real option list option"
  masks_forward :: attr
  masks_backward :: attr
  parents_available :: bool
  parents_all_available :: bool
  masks_forward_available :: bool
  masks_backward_available :: bool
  rewards_available :: bool

text \<open>\<open>Batch(env)\<close> after construction; \<open>Batch()\<close> has \<open>None\<close> for all three arguments.\<close>

definition Batch_init ::
  "('s, 'a) GFlowNetEnv option \<Rightarrow> bool option \<Rightarrow> bool option \<Rightarrow> ('s, 'a) Batch" where
  "Batch_init env cond cont =
     \<lparr>b_env = env, conditional = cond, b_continuous = cont, b_size = 0, envs = [],
      trajectories = [], traj_indices = [], state_indices = [], states = [], actions = [],
      b_done = [], masks_invalid_actions_forward = [], masks_invalid_actions_backward = [],
      parents = Some [], parents_all = Some [], states_policy = None, parents_policy = None,
      rewards = None, masks_forward = Unset, masks_backward = Unset,
      parents_available = False, parents_all_available = False,
      masks_forward_available = False, masks_backward_available = False,
      rewards_available = False\<rparr>"

subsection \<open>add_to_batch\<close>

text \<open>
  The body of the loop of \<open>add_to_batch\<close> for one tuple \<open>(env, action, valid, mask)\<close>.
  \<open>self.parents.append\<close> on a column that is \<open>None\<close> raises \<open>AttributeError\<close>; an index
  past the end of a list raises \<open>IndexError\<close>. The result is the batch when the tuple is
  done with, or the exception alone: when the code raises here it has already written
  \<open>envs\<close>, \<open>trajectories\<close>, \<open>traj_indices\<close> and \<open>state_indices\<close> (and \<open>parents\<close>, for
  an \<open>IndexError\<close>) and leaves them so, without the row. The model does not return
  that half-written batch, so nothing below is about a batch after a call that raised.
\<close>

definition add_sample ::
  "bool \<Rightarrow> bool \<Rightarrow> ('s, 'a) Batch
     \<Rightarrow> ('s, 'a) GFlowNetEnv \<times> 'a \<times> bool \<times> bool list option
     \<Rightarrow> error + ('s, 'a) Batch" where
  "add_sample backward train self sample_data =
     (case sample_data of (env, action, valid, msk) \<Rightarrow>
      if \<not> train \<and> \<not> env_done env then Inr self
      else if \<not> valid then Inr self
      else
        (let self1 = (if map_of (envs self) (env_id env) = None
                      then self\<lparr>envs := envs self @ [(env_id env, env)]\<rparr> else self);
             self2 = (case map_of (trajectories self1) (env_id env) of
                        None \<Rightarrow>
                          self1\<lparr>trajectories :=
                                  trajectories self1 @ [(env_id env, [b_size self1])]\<rparr>
                      | Some idxs \<Rightarrow>
                          self1\<lparr>trajectories :=
                                  AList.update (env_id env)
                                    (if backward then b_size self1 # idxs
                                     else idxs @ [b_size self1])
                                    (trajectories self1)\<rparr>);
             self3 = self2\<lparr>traj_indices := traj_indices self2 @ [env_id env],
                           state_indices := state_indices self2 @ [n_actions env]\<rparr>
         in
         if backward then
           (case parents self3 of
              None \<Rightarrow> Inl AttributeError
            | Some ps \<Rightarrow>
                (let ps' = ps @ [state env]; self4 = self3\<lparr>parents := Some ps'\<rparr> in
                 case map_of (trajectories self4) (env_id env) of
                   None \<Rightarrow> Inl KeyError
                 | Some idxs \<Rightarrow>
                     if length idxs = 1
                     then Inr (self4\<lparr>states := states self4 @ [state env],
                                     b_done := b_done self4 @ [True],
                                     masks_invalid_actions_backward :=
                                       masks_invalid_actions_backward self4 @ [msk],
                                     actions := actions self4 @ [action],
                                     b_size := b_size self4 + 1\<rparr>)
                     else
                       (case idxs of
                          _ # j # _ \<Rightarrow>
                            if j < length ps'
                            then Inr (self4\<lparr>states := states self4 @ [ps' ! j],
                                            b_done := b_done self4 @ [env_done env],
                                            actions := actions self4 @ [action],
                                            b_size := b_size self4 + 1\<rparr>)
                            else Inl IndexError
                        | _ \<Rightarrow> Inl IndexError)))
         else Inr (self3\<lparr>states := states self3 @ [state env],
                         b_done := b_done self3 @ [env_done env],
                         masks_invalid_actions_forward :=
                           masks_invalid_actions_forward self3 @ [msk],
                         actions := actions self3 @ [action],
                         b_size := b_size self3 + 1\<rparr>)))"

text \<open>The loop: an exception in one tuple ends the call.\<close>

fun add_samples ::
  "bool \<Rightarrow> bool \<Rightarrow> ('s, 'a) Batch
     \<Rightarrow> (('s, 'a) GFlowNetEnv \<times> 'a \<times> bool \<times> bool list option) list
     \<Rightarrow> error + ('s, 'a) Batch" where
  "add_samples backward train self [] = Inr self"
| "add_samples backward train self (x # xs) =
     (case add_sample backward train self x of
        Inl e \<Rightarrow> Inl e
      | Inr self' \<Rightarrow> add_samples backward train self' xs)"

text \<open>
  The masks \<open>add_to_batch\<close> works with: those given, or else one per environment.
\<close>

definition masks_or_default ::
  "bool list option list option \<Rightarrow> ('s, 'a) GFlowNetEnv list \<Rightarrow> bool \<Rightarrow> bool
     \<Rightarrow> bool list option list" where
  "masks_or_default masks_arg envs_arg backward train =
     (case masks_arg of
        Some m \<Rightarrow> m
      | None \<Rightarrow>
          if train
          then (if backward
                then map (\<lambda>env. get_mask_invalid_actions_backward env None None) envs_arg
                else map (\<lambda>env. Some (get_mask_invalid_actions_forward env None None))
                       envs_arg)
          else map (\<lambda>_. None) envs_arg)"

text \<open>
  \<open>add_to_batch(envs, actions, valids, masks_invalid_actions, backward, train)\<close>.
  \<open>envs[0]\<close> on an empty list raises \<open>IndexError\<close>, and \<open>envs[0].continuous\<close> on an
  environment without that attribute raises \<open>AttributeError\<close>; \<open>zip\<close> stops at the
  shortest list.
\<close>

definition add_to_batch ::
  "('s, 'a) Batch \<Rightarrow> ('s, 'a) GFlowNetEnv list \<Rightarrow> 'a list \<Rightarrow> bool list
     \<Rightarrow> bool list option list option \<Rightarrow> bool \<Rightarrow> bool \<Rightarrow> error + ('s, 'a) Batch" where
  "add_to_batch self envs_arg actions_arg valids masks_arg backward train =
     (case (if b_continuous self = None
            then (case envs_arg of
                    [] \<Rightarrow> Inl IndexError
                  | e # _ \<Rightarrow>
                      (case continuous e of
                         None \<Rightarrow> Inl AttributeError
                       | Some c \<Rightarrow> Inr (self\<lparr>b_continuous := Some c\<rparr>)))
            else Inr self) of
        Inl e \<Rightarrow> Inl e
      | Inr self1 \<Rightarrow>
          (let masks = masks_or_default masks_arg envs_arg backward train
           in add_samples backward train self1
                (zip envs_arg (zip actions_arg (zip valids masks)))))"

subsection \<open>is_valid, _shift_traj_indices and merge\<close>

definition is_valid :: "('s, 'a) Batch \<Rightarrow> bool" where
  "is_valid self =
     (if length (states self) \<noteq> b_size self then False
      else if length (actions self) \<noteq> b_size self then False
      else if length (b_done self) \<noteq> b_size self then False
      else if length (traj_indices self) \<noteq> b_size self then False
      else if length (state_indices self) \<noteq> b_size self then False
      else if set (traj_indices self) \<noteq> set (map fst (envs self)) then False
      else if set (map fst (trajectories self)) \<noteq> set (map fst (envs self)) then False
      else
        (let batch_indices = concat (map snd (trajectories self)) in
         if length batch_indices \<noteq> b_size self then False
         else if length (remdups batch_indices) \<noteq> length batch_indices then False
         else True))"

text \<open>
  Modelled from the spec: \<open>set_id\<close> is called by \<open>_shift_traj_indices\<close> and defined in
  none of the sources; the docstring of \<open>_shift_traj_indices\<close> says the shift is added
  to the environment ids, so it assigns the id and returns the environment.
\<close>

definition set_id :: "('s, 'a) GFlowNetEnv \<Rightarrow> int \<Rightarrow> ('s, 'a) GFlowNetEnv" where
  "set_id env i = env\<lparr>env_id := i\<rparr>"

text \<open>
  \<open>_shift_traj_indices(by)\<close>. The keys of a dictionary are distinct, so the shifted
  keys of the two comprehensions are distinct and keep their order.
\<close>

definition shift_traj_indices :: "('s, 'a) Batch \<Rightarrow> int \<Rightarrow> error + ('s, 'a) Batch" where
  "shift_traj_indices self by_arg =
     (if \<not> is_valid self then Inl PyException
      else
        (let self' = self\<lparr>traj_indices := map (\<lambda>idx. idx + by_arg) (traj_indices self),
                          trajectories := map (\<lambda>(k, v). (k + by_arg, v)) (trajectories self),
                          envs := map (\<lambda>(k, env). (k + by_arg, set_id env (k + by_arg)))
                                    (envs self)\<rparr>
         in if \<not> is_valid self' then Inl PyException else Inr self'))"

text \<open>\<open>d.update(other)\<close>: a key of \<open>d\<close> keeps its place, a new key goes to the end.\<close>

definition dict_update :: "('k \<times> 'v) list \<Rightarrow> ('k \<times> 'v) list \<Rightarrow> ('k \<times> 'v) list" where
  "dict_update d other = fold (\<lambda>(k, v). AList.update k v) other d"

text \<open>
  Modelled from the spec: \<open>extend\<close> (gflownet/utils/common.py) is not among the sources;
  \<open>merge\<close> splices columns with it, so it joins two columns, the second after the first.
\<close>

definition extend :: "'x list \<Rightarrow> 'x list \<Rightarrow> 'x list" where
  "extend orig new = orig @ new"

text \<open>
  The body of the loop of \<open>merge\<close> for one batch: the shift of the trajectory ids of
  \<open>batch\<close>, then the splice. \<open>np.max\<close> of an empty list raises \<open>ValueError\<close>. The five
  \<open>..._available\<close> flags are not assigned. A column that a flag calls available and that
  is \<open>None\<close> cannot be extended (\<open>TypeError\<close>).
\<close>

definition merge_batch :: "('s, 'a) Batch \<Rightarrow> ('s, 'a) Batch \<Rightarrow> error + ('s, 'a) Batch" where
  "merge_batch self batch =
     (case (if b_size self = 0 then Inr 0
            else (case map fst (trajectories self) of
                    [] \<Rightarrow> Inl ValueError
                  | k # ks \<Rightarrow> Inr (fold max ks k + 1))) of
        Inl e \<Rightarrow> Inl e
      | Inr traj_idx_shift \<Rightarrow>
          (case shift_traj_indices batch traj_idx_shift of
             Inl e \<Rightarrow> Inl e
           | Inr batch' \<Rightarrow>
               (let self1 = self\<lparr>b_size := b_size self + b_size batch',
                                 envs := dict_update (envs self) (envs batch'),
                                 trajectories :=
                                   dict_update (trajectories self) (trajectories batch'),
                                 traj_indices := traj_indices self @ traj_indices batch',
                                 state_indices := state_indices self @ state_indices batch',
                                 states := states self @ states batch',
                                 actions := actions self @ actions batch',
                                 b_done := b_done self @ b_done batch'\<rparr>;
                    self2 = self1\<lparr>states_policy :=
                                    (case (states_policy self1, states_policy batch') of
                                       (Some a, Some b) \<Rightarrow> Some (extend a b)
                                     | _ \<Rightarrow> None)\<rparr>;
                    self3 = self2\<lparr>parents_policy :=
                                    (case (parents_policy self2, parents_policy batch') of
                                       (Some a, Some b) \<Rightarrow> Some (extend a b)
                                     | _ \<Rightarrow> None)\<rparr>;
                    self4 = (if masks_forward_available self3 \<and> masks_forward_available batch'
                             then self3\<lparr>masks_invalid_actions_forward :=
                                          extend (masks_invalid_actions_forward self3)
                                            (masks_invalid_actions_forward batch')\<rparr>
                             else self3\<lparr>masks_forward := PyNone\<rparr>);
                    self5 = (if masks_backward_available self4 \<and> masks_backward_available batch'
                             then self4\<lparr>masks_invalid_actions_backward :=
                                          extend (masks_invalid_actions_backward self4)
                                            (masks_invalid_actions_backward batch')\<rparr>
                             else self4\<lparr>masks_backward := PyNone\<rparr>)
                in
                case (if parents_available self5 \<and> parents_available batch'
                      then (case (parents self5, parents batch') of
                              (Some a, Some b) \<Rightarrow> Inr (self5\<lparr>parents := Some (extend a b)\<rparr>)
                            | _ \<Rightarrow> Inl TypeError)
                      else Inr (self5\<lparr>parents := None\<rparr>)) of
                  Inl e \<Rightarrow> Inl e
                | Inr self6 \<Rightarrow>
                    (case (if parents_all_available self6 \<and> parents_all_available batch'
                           then (case (parents_all self6, parents_all batch') of
                                   (Some a, Some b) \<Rightarrow>
                                     Inr (self6\<lparr>parents_all := Some (extend a b)\<rparr>)
                                 | _ \<Rightarrow> Inl TypeError)
                           else Inr (self6\<lparr>parents_all := None\<rparr>)) of
                       Inl e \<Rightarrow> Inl e
                     | Inr self7 \<Rightarrow>
                         (if rewards_available self7 \<and> rewards_available batch'
                          then (case (rewards self7, rewards batch') of
                                  (Some a, Some b) \<Rightarrow>
                                    Inr (self7\<lparr>rewards := Some (extend a b)\<rparr>)
                                | _ \<Rightarrow> Inl TypeError)
                          else Inr (self7\<lparr>rewards := None\<rparr>))))))"

fun merge_loop :: "('s, 'a) Batch \<Rightarrow> ('s, 'a) Batch list \<Rightarrow> error + ('s, 'a) Batch" where
  "merge_loop self [] = Inr self"
| "merge_loop self (batch # batches) =
     (case merge_batch self batch of
        Inl e \<Rightarrow> Inl e
      | Inr self' \<Rightarrow> merge_loop self' batches)"

text \<open>
  \<open>merge(batches)\<close>: the loop, then \<open>assert self.is_valid()\<close>. The batches of the list are
  objects other than \<open>self\<close>.
\<close>

definition merge :: "('s, 'a) Batch \<Rightarrow> ('s, 'a) Batch list \<Rightarrow> error + ('s, 'a) Batch" where
  "merge self batches =
     (case merge_loop self batches of
        Inl e \<Rightarrow> Inl e
      | Inr self' \<Rightarrow> if is_valid self' then Inr self' else Inl AssertionError)"

subsection \<open>states2proxy\<close>

text \<open>
  \<open>get_states_of_trajectory(traj_idx, states, traj_indices)\<close> on two lists: the two
  assertions, then the states whose trajectory id is \<open>traj_idx\<close>, in their order.
\<close>

definition get_states_of_trajectory :: "int \<Rightarrow> 's list \<Rightarrow> int list \<Rightarrow> error + 's list" where
  "get_states_of_trajectory traj_idx sts tis =
     (if length sts \<noteq> length tis then Inl AssertionError
      else Inr (map fst (filter (\<lambda>(s, idx). idx = traj_idx) (zip sts tis))))"

text \<open>
  The loop of the conditional branch of \<open>states2proxy\<close> over the keys of
  \<open>self.trajectories\<close>, with the lists \<open>states_proxy\<close> and \<open>perm_index\<close> it builds. The
  last statement of its body reads \<open>env_ids\<close> and \<open>env_id\<close>, which are neither locals
  nor parameters nor names of the module: \<open>NameError\<close>. So the loop ends normally only
  when every key was skipped, and then both lists are empty.
\<close>

fun states2proxy_loop ::
  "('s, 'a) Batch \<Rightarrow> 's list \<Rightarrow> int list \<Rightarrow> int list \<Rightarrow> 's list list \<times> nat list list
     \<Rightarrow> error + ('s list list \<times> nat list list)" where
  "states2proxy_loop self sts tis [] acc = Inr acc"
| "states2proxy_loop self sts tis (traj_idx # rest) acc =
     (if traj_idx \<notin> set tis then states2proxy_loop self sts tis rest acc
      else
        (case map_of (envs self) traj_idx of
           None \<Rightarrow> Inl KeyError
         | Some env \<Rightarrow>
             (case get_states_of_trajectory traj_idx sts tis of
                Inl e \<Rightarrow> Inl e
              | Inr sts_traj \<Rightarrow>
                  (let states_proxy = fst acc @ [statebatch2proxy env sts_traj]
                   in Inl NameError))))"

text \<open>
  \<open>states2proxy(states, traj_indices)\<close>, an argument left at its default being \<open>None\<close>.
  With both given and the batch conditional, the lengths are asserted equal. An empty
  \<open>perm_index\<close> makes \<open>torch.cat\<close> raise \<open>RuntimeError\<close>; by the loop above no other
  \<open>perm_index\<close> reaches it. Without an environment, \<open>self.env.statebatch2proxy\<close> raises
  \<open>AttributeError\<close>; \<open>traj_idx not in None\<close> raises \<open>TypeError\<close>.
\<close>

definition states2proxy ::
  "('s, 'a) Batch \<Rightarrow> 's list option \<Rightarrow> int list option \<Rightarrow> error + 's list" where
  "states2proxy self states_arg traj_indices_arg =
     (case (case (states_arg, traj_indices_arg) of
              (None, Some tis) \<Rightarrow>
                if conditional self = Some True then Inl AssertionError
                else Inr (states self, Some (traj_indices self))
            | (None, None) \<Rightarrow> Inr (states self, Some (traj_indices self))
            | (Some sts, Some tis) \<Rightarrow>
                if conditional self = Some True \<and> length sts \<noteq> length tis
                then Inl AssertionError else Inr (sts, Some tis)
            | (Some sts, None) \<Rightarrow> Inr (sts, None)) of
        Inl e \<Rightarrow> Inl e
      | Inr (sts, tis_opt) \<Rightarrow>
          if conditional self = Some True then
            (case tis_opt of
               None \<Rightarrow> if trajectories self = [] then Inl RuntimeError else Inl TypeError
             | Some tis \<Rightarrow>
                 (case states2proxy_loop self sts tis (map fst (trajectories self)) ([], []) of
                    Inl e \<Rightarrow> Inl e
                  | Inr (states_proxy, perm_index) \<Rightarrow> Inl RuntimeError))
          else
            (case b_env self of
               None \<Rightarrow> Inl AttributeError
             | Some env \<Rightarrow> Inr (statebatch2proxy env sts)))"

subsection \<open>The caches of rewards and forward masks\<close>

text \<open>
  \<open>get_terminating_states(proxy=True)\<close>, sorted by insertion, on a batch whose states
  are a list: the states of the rows that are done, converted by \<open>states2proxy\<close>. In a
  conditional batch their trajectory ids are asserted distinct and passed on as an
  array, and \<open>states2proxy\<close> asserts that states and ids have the same type: a list and
  an array have not.
\<close>

definition get_terminating_states_proxy :: "('s, 'a) Batch \<Rightarrow> error + 's list" where
  "get_terminating_states_proxy self =
     (if length (b_done self) < b_size self then Inl IndexError
      else
        (let idxs = filter (\<lambda>idx. b_done self ! idx) [0..<b_size self] in
         if list_ex (\<lambda>idx. length (states self) \<le> idx) idxs then Inl IndexError
         else
           (let states_term = map (\<lambda>idx. states self ! idx) idxs in
            if conditional self = Some True then
              (if length (traj_indices self) < b_size self then Inl IndexError
               else
                 (let tis = map (\<lambda>idx. traj_indices self ! idx) idxs in
                  if length (remdups tis) \<noteq> length tis then Inl AssertionError
                  else Inl AssertionError))
            else states2proxy self (Some states_term) None)))"

text \<open>
  \<open>_compute_rewards\<close>: zeros, and the shaped scores of the terminating states at the
  rows that are done. The boolean index needs one flag per row and as many values as
  flags that are set, or a single value. It sets \<open>rewards_available\<close>.
\<close>

definition compute_rewards :: "('s, 'a) Batch \<Rightarrow> error + ('s, 'a) Batch" where
  "compute_rewards self =
     (case get_terminating_states_proxy self of
        Inl e \<Rightarrow> Inl e
      | Inr states_proxy_done \<Rightarrow>
          if length (b_done self) > 0 then
            (case b_env self of
               None \<Rightarrow> Inl AttributeError
             | Some env \<Rightarrow>
                 (case proxy env of
                    None \<Rightarrow> Inl TypeError
                  | Some f \<Rightarrow>
                      (case proxy2reward env (f states_proxy_done) of
                         Inl e \<Rightarrow> Inl e
                       | Inr r \<Rightarrow>
                           if length (b_done self) \<noteq> b_size self then Inl IndexError
                           else if length r = length (filter id (b_done self))
                           then Inr (self\<lparr>rewards := Some (scatter_done (b_done self) r),
                                           rewards_available := True\<rparr>)
                           else if length r = 1
                           then Inr (self\<lparr>rewards :=
                                             Some (map (\<lambda>d. if d then hd r else Some 0)
                                                     (b_done self)),
                                           rewards_available := True\<rparr>)
                           else Inl RuntimeError)))
          else Inr (self\<lparr>rewards := Some (replicate (b_size self) (Some 0)),
                          rewards_available := True\<rparr>))"

text \<open>\<open>get_rewards(force_recompute)\<close>: the batch after the call and the value returned.\<close>

definition get_rewards ::
  "('s, 'a) Batch \<Rightarrow> bool \<Rightarrow> error + (('s, 'a) Batch \<times> real option list option)" where
  "get_rewards self force_recompute =
     (if rewards_available self = False \<or> force_recompute = True
      then (case compute_rewards self of
              Inl e \<Rightarrow> Inl e
            | Inr self' \<Rightarrow> Inr (self', rewards self'))
      else Inr (self, rewards self))"

text \<open>
  The loop of \<open>_compute_masks_forward\<close> from row \<open>idx\<close> on: the row's state, flag and
  action are read, and the mask is asked of the row's environment.
\<close>

fun compute_masks_rows ::
  "('s, 'a) Batch \<Rightarrow> nat \<Rightarrow> int list \<Rightarrow> error + bool list option list" where
  "compute_masks_rows self idx [] = Inr []"
| "compute_masks_rows self idx (traj_idx # rest) =
     (if length (states self) \<le> idx \<or> length (b_done self) \<le> idx
         \<or> length (actions self) \<le> idx then Inl IndexError
      else
        (case map_of (envs self) traj_idx of
           None \<Rightarrow> Inl KeyError
         | Some env \<Rightarrow>
             (case compute_masks_rows self (idx + 1) rest of
                Inl e \<Rightarrow> Inl e
              | Inr ms \<Rightarrow>
                  Inr (Some (get_mask_invalid_actions_forward env
                               (Some (states self ! idx)) (Some (b_done self ! idx))) # ms))))"

definition compute_masks_forward :: "('s, 'a) Batch \<Rightarrow> error + ('s, 'a) Batch" where
  "compute_masks_forward self =
     (case compute_masks_rows self 0 (traj_indices self) of
        Inl e \<Rightarrow> Inl e
      | Inr ms \<Rightarrow> Inr (self\<lparr>masks_invalid_actions_forward := ms,
                              masks_forward_available := True\<rparr>))"

text \<open>
  \<open>get_masks_forward(of_parents=False, force_recompute)\<close>: the batch after the call and
  the value returned.
\<close>

definition get_masks_forward ::
  "('s, 'a) Batch \<Rightarrow> bool \<Rightarrow> error + (('s, 'a) Batch \<times> bool list option list)" where
  "get_masks_forward self force_recompute =
     (if masks_forward_available self = False \<or> force_recompute = True
      then (case compute_masks_forward self of
              Inl e \<Rightarrow> Inl e
            | Inr self' \<Rightarrow> Inr (self', masks_invalid_actions_forward self'))
      else Inr (self, masks_invalid_actions_forward self))"

subsection \<open>Sequences of backward calls\<close>

text \<open>
  A call of \<open>add_to_batch\<close> with \<open>backward=True\<close> is its other arguments; the calls of a
  list are made one after the other on the same batch.
\<close>

type_synonym ('s, 'a) call =
  "('s, 'a) GFlowNetEnv list \<times> 'a list \<times> bool list \<times> bool list option list option \<times> bool"

fun backward_calls :: "('s, 'a) Batch \<Rightarrow> ('s, 'a) call list \<Rightarrow> error + ('s, 'a) Batch" where
  "backward_calls self [] = Inr self"
| "backward_calls self (c # cs) =
     (case c of (es, acts, vs, ms, tr) \<Rightarrow>
        (case add_to_batch self es acts vs ms True tr of
           Inl e \<Rightarrow> Inl e
         | Inr self' \<Rightarrow> backward_calls self' cs))"

text \<open>
  The environments whose tuple adds a row, in the order of the rows: the tuple is valid
  and, outside training, the environment is done.
\<close>

definition rows_of_samples ::
  "bool \<Rightarrow> (('s, 'a) GFlowNetEnv \<times> 'a \<times> bool \<times> bool list option) list
     \<Rightarrow> ('s, 'a) GFlowNetEnv list" where
  "rows_of_samples train xs =
     map fst (filter (\<lambda>(e, a, v, m). v \<and> (train \<or> env_done e)) xs)"

fun recorded :: "('s, 'a) call list \<Rightarrow> ('s, 'a) GFlowNetEnv list" where
  "recorded [] = []"
| "recorded (c # cs) =
     (case c of (es, acts, vs, ms, tr) \<Rightarrow>
        rows_of_samples tr (zip es (zip acts (zip vs (masks_or_default ms es True tr))))
        @ recorded cs)"

text \<open>
  What a batch built by backward calls alone keeps true, \<open>hist\<close> being the environments
  of its rows in the order of the rows: \<open>parents\<close> holds their states, and the first index
  of every trajectory is its latest row.
\<close>

definition backward_inv :: "('s, 'a) Batch \<Rightarrow> ('s, 'a) GFlowNetEnv list \<Rightarrow> bool" where
  "backward_inv b hist \<longleftrightarrow>
     parents b = Some (map state hist) \<and> b_size b = length hist \<and>
     (\<forall>i. case map_of (trajectories b) i of
            None \<Rightarrow> i \<notin> env_id ` set hist
          | Some idxs \<Rightarrow> idxs \<noteq> [] \<and> hd idxs < length hist
              \<and> hist ! hd idxs = last (filter (\<lambda>e. env_id e = i) hist)
              \<and> i \<in> env_id ` set hist)"

text \<open>
  What \<open>add_to_batch\<close> keeps true of a batch: it is valid, the trajectory ids are
  distinct keys, and every row index of a trajectory is below the size.
\<close>

definition well_formed :: "('s, 'a) Batch \<Rightarrow> bool" where
  "well_formed b \<longleftrightarrow>
     is_valid b \<and> distinct (map fst (trajectories b))
     \<and> list_all (\<lambda>i. i < b_size b) (concat (map snd (trajectories b)))"

text \<open>A sequence of calls, each run on the result of the one before.\<close>

definition and_then :: "error + 'x \<Rightarrow> ('x \<Rightarrow> error + 'y) \<Rightarrow> error + 'y" where
  "and_then r f = (case r of Inl e \<Rightarrow> Inl e | Inr x \<Rightarrow> f x)"

text \<open>
  An environment of a concrete class that is not continuous (its \<open>continuous\<close> is
  \<open>False\<close>), with id \<open>i\<close>, state \<open>s\<close> and flag \<open>d\<close>, after \<open>n\<close> actions.
\<close>

definition env_at :: "int \<Rightarrow> int list \<Rightarrow> bool \<Rightarrow> int \<Rightarrow> (int list, int) GFlowNetEnv" where
  "env_at i s d n =
     (GFlowNetEnv_init i 1 1 ''power'' None)
       \<lparr>state := s, env_done := d, n_actions := n, continuous := Some False\<rparr>"

section \<open>Sampling actions: tensors in a store\<close>

text \<open>
  \<open>sample_actions\<close> and \<open>get_logprobs\<close> write into tensors that the caller holds, so
  tensors live in a store: a tensor of two dimensions is a list of rows, the store is
  the list of the tensors allocated so far, and a reference to a tensor is its position
  in the store. The entries are of any type with a one, a division and a negation;
  nothing is assumed of the three.
\<close>

type_synonym 'x tensor = "'x list list"


text \<open>\<open>t[mask] = v\<close> needs a mask of the shape of \<open>t\<close>.\<close>

definition same_shape :: "'x tensor \<Rightarrow> bool list list \<Rightarrow> bool" where
  "same_shape t m \<longleftrightarrow> map length t = map length m"

text \<open>\<open>t[mask] = v\<close>: the entries where the mask is set become \<open>v\<close>.\<close>

definition masked_fill :: "'x tensor \<Rightarrow> bool list list \<Rightarrow> 'x \<Rightarrow> 'x tensor" where
  "masked_fill t m v =
     map (\<lambda>(row, mrow). map (\<lambda>(x, b). if b then v else x) (zip row mrow)) (zip t m)"






section \<open>The replay buffer (class Buffer of gflownet/envs/base.py)\<close>

text \<open>
  A row of the data frame \<open>replay\<close>: the columns state, path, reward, energy and iter.
  A cell that was never written is \<open>None\<close>. Rewards are real numbers.
\<close>

record ('r, 'q) replay_row =
  row_state :: "'r option"
  row_path :: "'q option"
  row_reward :: real
  row_energy :: "real option"
  row_iter :: "int option"

text \<open>\<open>self.replay\<close> after \<open>Buffer.__init__\<close>: every reward is \<open>-1\<close>.\<close>

definition Buffer_replay_init :: "nat \<Rightarrow> ('r, 'q) replay_row list" where
  "Buffer_replay_init replay_capacity =
     replicate replay_capacity
       \<lparr>row_state = None, row_path = None, row_reward = - 1, row_energy = None,
        row_iter = None\<rparr>"

text \<open>\<open>np.max\<close> and \<open>np.min\<close> raise \<open>ValueError\<close> on an empty array: \<open>None\<close>.\<close>

definition np_max :: "real list \<Rightarrow> real option" where
  "np_max xs = (case xs of [] \<Rightarrow> None | x # r \<Rightarrow> Some (fold max r x))"

definition np_min :: "real list \<Rightarrow> real option" where
  "np_min xs = (case xs of [] \<Rightarrow> None | x # r \<Rightarrow> Some (fold min r x))"

text \<open>\<open>argmax\<close> and \<open>argmin\<close> are the first position of the maximum and of the minimum.\<close>

fun first_index :: "'v \<Rightarrow> 'v list \<Rightarrow> nat" where
  "first_index a [] = 0"
| "first_index a (x # xs) = (if x = a then 0 else Suc (first_index a xs))"

text \<open>
  The \<open>while\<close> loop of \<open>_add_greater\<close>, with fuel: each test of the condition takes one
  unit, and \<open>None\<close> means the fuel ran out before the loop ended. The result is the data
  frame when the loop ends and the exception that ended it, if any: the frame is written
  in place, so an exception keeps the rows written before it. \<open>state2readable\<close> and
  \<open>path2readable\<close> are the methods of the environment; \<open>rews\<close> is the argument
  \<open>rewards\<close> and \<open>rewards_new\<close> its working copy.
\<close>

fun add_greater_loop ::
  "('s \<Rightarrow> 'r) \<Rightarrow> ('p \<Rightarrow> 'q) \<Rightarrow> 's list \<Rightarrow> 'p list \<Rightarrow> real list \<Rightarrow> real list \<Rightarrow> int
     \<Rightarrow> nat \<Rightarrow> ('r, 'q) replay_row list \<Rightarrow> real list
     \<Rightarrow> (('r, 'q) replay_row list \<times> error option) option" where
  "add_greater_loop state2readable path2readable sts paths rews energies it 0 replay
       rewards_new = None"
| "add_greater_loop state2readable path2readable sts paths rews energies it (Suc fuel) replay
       rewards_new =
     (case np_max rewards_new of
        None \<Rightarrow> Some (replay, Some ValueError)
      | Some mx \<Rightarrow>
          (case np_min (map row_reward replay) of
             None \<Rightarrow> Some (replay, Some ValueError)
           | Some mn \<Rightarrow>
               if mx > mn then
                 (let idx_new_max = first_index mx rewards_new in
                  if length sts \<le> idx_new_max \<or> length paths \<le> idx_new_max
                     \<or> length rews \<le> idx_new_max \<or> length energies \<le> idx_new_max
                  then Some (replay, Some IndexError)
                  else
                    add_greater_loop state2readable path2readable sts paths rews energies it
                      fuel
                      (replay[first_index mn (map row_reward replay) :=
                                \<lparr>row_state = Some (state2readable (sts ! idx_new_max)),
                                 row_path = Some (path2readable (paths ! idx_new_max)),
                                 row_reward = rews ! idx_new_max,
                                 row_energy = Some (energies ! idx_new_max),
                                 row_iter = Some it\<rparr>])
                      (rewards_new[idx_new_max := - 1]))
               else Some (replay, None)))"

text \<open>\<open>_add_greater(states, paths, rewards, energies, it)\<close>: the working copy starts as \<open>rewards\<close>.\<close>

definition add_greater ::
  "nat \<Rightarrow> ('s \<Rightarrow> 'r) \<Rightarrow> ('p \<Rightarrow> 'q) \<Rightarrow> ('r, 'q) replay_row list
     \<Rightarrow> 's list \<Rightarrow> 'p list \<Rightarrow> real list \<Rightarrow> real list \<Rightarrow> int
     \<Rightarrow> (('r, 'q) replay_row list \<times> error option) option" where
  "add_greater fuel state2readable path2readable replay sts paths rews energies it =
     add_greater_loop state2readable path2readable sts paths rews energies it fuel replay rews"

text \<open>
  The data frames a buffer can hold: that of the constructor, and the one a call of
  \<open>_add_greater\<close> leaves, whether it returned or raised.
\<close>

inductive replay_reachable ::
  "('s \<Rightarrow> 'r) \<Rightarrow> ('p \<Rightarrow> 'q) \<Rightarrow> ('r, 'q) replay_row list \<Rightarrow> bool"
  for state2readable :: "'s \<Rightarrow> 'r" and path2readable :: "'p \<Rightarrow> 'q" where
  init: "replay_reachable state2readable path2readable (Buffer_replay_init replay_capacity)"
| step: "replay_reachable state2readable path2readable replay \<Longrightarrow>
         add_greater fuel state2readable path2readable replay sts paths rews energies it
           = Some (replay', e) \<Longrightarrow>
         replay_reachable state2readable path2readable replay'"

text \<open>The number of candidates whose reward exceeds the minimum of the reservoir.\<close>

definition candidates_above :: "('r, 'q) replay_row list \<Rightarrow> real list \<Rightarrow> nat" where
  "candidates_above replay rews =
     (case np_min (map row_reward replay) of
        None \<Rightarrow> 0
      | Some mn \<Rightarrow> length (filter (\<lambda>r. mn < r) rews))"

text \<open>
  What the loop keeps true: no reward of the reservoir is below the sentinel, and the
  working copy differs from \<open>rewards\<close> only where it holds the sentinel.
\<close>

definition replay_inv :: "('r, 'q) replay_row list \<Rightarrow> bool" where
  "replay_inv replay \<longleftrightarrow> list_all (\<lambda>r. - 1 \<le> row_reward r) replay"

definition working_copy :: "real list \<Rightarrow> real list \<Rightarrow> bool" where
  "working_copy rews rewards_new \<longleftrightarrow>
     length rewards_new = length rews
     \<and> (\<forall>i<length rews. rewards_new ! i = rews ! i \<or> rewards_new ! i = - 1)"

section \<open>Properties of the environment\<close>

text \<open>Values below \<open>2 ^ 1023\<close> are within the range of the floats.\<close>

lemma float_overflow_ge: "2 ^ 1023 \<le> float_overflow"
proof -
  have "(1::real) * 2 ^ 1023 \<le> (2 - 1 / 2 ^ 53) * 2 ^ 1023"
    by (rule mult_right_mono) simp_all
  then show ?thesis unfolding float_overflow_def by (simp only: mult_1)
qed

lemma np_float_Finite: "\<bar>x\<bar> < 2 ^ 1023 \<Longrightarrow> np_float x = Finite x"
  using float_overflow_ge unfolding np_float_def
  by (auto simp only: abs_less_iff split: if_splits)

lemma np_float_2: "np_float 2 = Finite 2"
proof (rule np_float_Finite)
  have "(2::real) ^ 1 < 2 ^ 1023" by (rule power_strict_increasing) simp_all
  then show "\<bar>2::real\<bar> < 2 ^ 1023" by (simp only: power_one_right abs_numeral)
qed

lemmas shaping_defs = np_clip_def np_power_def np_div_def np_mul_def is_inf_def is_zero_def
  val_def np_float_2

lemma step_body_eos:
  "eos self \<le> a \<Longrightarrow>
     step_body self a =
       (self\<lparr>env_done := True, n_actions := n_actions self + 1\<rparr>, (state self, a, True))"
  by (simp add: step_body_def)

lemma step_body_always_valid: "snd (snd (snd (step_body self a))) = True"
  by (simp add: step_body_def Let_def)

text \<open>
  C2. \<open>reward\<close> returns the scalar 0 when the flag is \<open>True\<close> and the shaped score when
  it is \<open>False\<close>, which is the reverse of the claim; \<open>reward_batch\<close> on the same state
  gives the shaped score at a row whose flag is \<open>True\<close> and 0 at a row whose flag is
  \<open>False\<close>. Evaluated at the power form with the scorer that answers \<open>-2\<close> for every
  state: the shaped score is 2.
\<close>

theorem reward_done_inverted:
  "reward (GFlowNetEnv_init 0 1 1 ''power'' (Some (map (\<lambda>_. - 2)))) (Some [1]) (Some True)
     = Inr (Scalar (Some 0))
   \<and> reward (GFlowNetEnv_init 0 1 1 ''power'' (Some (map (\<lambda>_. - 2)))) (Some [1]) (Some False)
     = Inr (Array [Some 2])
   \<and> reward_batch (GFlowNetEnv_init 0 1 1 ''power'' (Some (map (\<lambda>_. - 2)))) [[1]] [True]
     = Inr [Some 2]
   \<and> reward_batch (GFlowNetEnv_init 0 1 1 ''power'' (Some (map (\<lambda>_. - 2)))) [[1]] [False]
     = Inr [Some 0]"
  by (simp add: reward_def reward_batch_def GFlowNetEnv_init_def proxy2reward_def
      state2proxy_def statebatch2proxy_def shaping_defs)

text \<open>
  C3. \<open>step\<close> raises \<open>NameError\<close> for every environment and every action: its body reads
  \<open>action\<close>, and the parameter is \<open>action_idx\<close>. It returns nothing, neither for the
  stop action nor for any other.
\<close>

theorem step_raises_NameError: "step self action_idx = Inl NameError"
  by (simp add: step_def step_locals_def)

section \<open>Properties of the batch\<close>

lemmas batch_defs = and_then_def add_to_batch_def add_sample_def Batch_init_def env_at_def
  GFlowNetEnv_init_def merge_def merge_batch_def shift_traj_indices_def is_valid_def
  dict_update_def set_id_def extend_def get_mask_invalid_actions_forward_def
  get_mask_invalid_actions_backward_def masks_or_default_def

subsection \<open>add_to_batch keeps the batch valid\<close>

text \<open>
  A call of \<open>add_to_batch\<close> that returns, forward or backward, with valid and invalid
  tuples, keeps \<open>is_valid\<close>; the row indices of the trajectories are then exactly the
  numbers below the size. The empty batch is valid.
\<close>

lemma add_sample_skip:
  "\<not> (v \<and> (tr \<or> env_done e)) \<Longrightarrow> add_sample bw tr b (e, a, v, m) = Inr b"
  by (auto simp: add_sample_def)

lemma is_valid_iff:
  "is_valid b \<longleftrightarrow>
     length (states b) = b_size b \<and> length (actions b) = b_size b
     \<and> length (b_done b) = b_size b \<and> length (traj_indices b) = b_size b
     \<and> length (state_indices b) = b_size b
     \<and> set (traj_indices b) = fst ` set (envs b)
     \<and> fst ` set (trajectories b) = fst ` set (envs b)
     \<and> length (concat (map snd (trajectories b))) = b_size b
     \<and> distinct (concat (map snd (trajectories b)))"
  unfolding is_valid_def Let_def length_remdups_eq remdups_id_iff_distinct
  by (simp only: set_map if_False if_True simp_thms split: if_splits) auto

lemma concat_update_length:
  "map_of T k = Some idxs \<Longrightarrow>
     length (concat (map snd (AList.update k v T))) + length idxs
       = length (concat (map snd T)) + length v"
  by (induction T) (auto split: if_splits)

lemma concat_update_set:
  "map_of T k = Some idxs \<Longrightarrow>
     set (concat (map snd (AList.update k v T))) \<subseteq> set v \<union> set (concat (map snd T))"
  by (induction T) (auto split: if_splits)

lemma concat_update_distinct:
  "map_of T k = Some idxs \<Longrightarrow> distinct (concat (map snd T)) \<Longrightarrow> distinct v
     \<Longrightarrow> set v = insert n (set idxs) \<Longrightarrow> n \<notin> set (concat (map snd T))
     \<Longrightarrow> distinct (concat (map snd (AList.update k v T)))"
proof (induction T)
  case Nil
  then show ?case by simp
next
  case (Cons x T)
  obtain k' l where x: "x = (k', l)" by (cases x)
  show ?case
  proof (cases "k' = k")
    case True
    then show ?thesis using Cons.prems by (auto simp: x)
  next
    case False
    then have m: "map_of T k = Some idxs" using Cons.prems(1) by (simp add: x)
    have "set (concat (map snd (AList.update k v T))) \<subseteq> set v \<union> set (concat (map snd T))"
      by (rule concat_update_set[OF m])
    moreover have "set idxs \<subseteq> set (concat (map snd T))"
      using m by (auto dest!: map_of_SomeD intro: bexI[of _ "(k, idxs)"])
    ultimately have sub: "set (concat (map snd (AList.update k v T)))
        \<subseteq> insert n (set (concat (map snd T)))"
      using Cons.prems(4) by auto
    have l: "distinct l" "n \<notin> set l" "set l \<inter> set (concat (map snd T)) = {}"
      and rest: "distinct (concat (map snd T))" "n \<notin> set (concat (map snd T))"
      using Cons.prems(2,5) by (auto simp: x)
    have disj: "set l \<inter> set (concat (map snd (AList.update k v T))) = {}"
      using sub l by blast
    have "distinct (concat (map snd (AList.update k v T)))"
      by (rule Cons.IH[OF m rest(1) Cons.prems(3,4) rest(2)])
    then show ?thesis using False l(1) disj by (simp add: x)
  qed
qed


lemma add_sample_result:
  "tr \<or> env_done e \<Longrightarrow>
   (case add_sample bw tr b (e, a, True, m) of
      Inl err \<Rightarrow> True
    | Inr b' \<Rightarrow>
        trajectories b' =
          (case map_of (trajectories b) (env_id e) of
             None \<Rightarrow> trajectories b @ [(env_id e, [b_size b])]
           | Some idxs \<Rightarrow>
               AList.update (env_id e) (if bw then b_size b # idxs else idxs @ [b_size b])
                 (trajectories b))
        \<and> b_size b' = Suc (b_size b)
        \<and> length (states b') = Suc (length (states b))
        \<and> length (actions b') = Suc (length (actions b))
        \<and> length (b_done b') = Suc (length (b_done b))
        \<and> traj_indices b' = traj_indices b @ [env_id e]
        \<and> length (state_indices b') = Suc (length (state_indices b))
        \<and> fst ` set (envs b') = insert (env_id e) (fst ` set (envs b)))"
  by (cases bw; cases "map_of (envs b) (env_id e)"; cases "map_of (trajectories b) (env_id e)")
     (auto simp: add_sample_def Let_def map_of_eq_None_iff update_conv' map_add_def
           split: option.split list.split dest: map_of_SomeD intro: image_eqI[where x="(env_id e, _)"])

lemma add_sample_well_formed:
  assumes "well_formed b" "add_sample bw tr b x = Inr b'"
  shows "well_formed b'"
proof -
  obtain e a v m where x: "x = (e, a, v, m)" by (cases x) auto
  show ?thesis
  proof (cases "v \<and> (tr \<or> env_done e)")
    case False
    then have "b' = b" using assms(2) add_sample_skip[of v tr e bw b a m] by (simp add: x)
    then show ?thesis using assms(1) by simp
  next
    case True
    define n where "n = b_size b"
    define T where "T = trajectories b"
    from assms(1) have val: "is_valid b" and dk: "distinct (map fst T)"
      and lt: "\<forall>i\<in>set (concat (map snd T)). i < n"
      by (auto simp: well_formed_def list_all_iff T_def n_def)
    note v = val[unfolded is_valid_iff, folded T_def n_def]
    have fresh: "n \<notin> set (concat (map snd T))" using lt by auto
    define T' where "T' = (case map_of T (env_id e) of
        None \<Rightarrow> T @ [(env_id e, [n])]
      | Some idxs \<Rightarrow> AList.update (env_id e) (if bw then n # idxs else idxs @ [n]) T)"
    have props: "fst ` set T' = insert (env_id e) (fst ` set T) \<and> distinct (map fst T')
          \<and> length (concat (map snd T')) = Suc n
          \<and> set (concat (map snd T')) \<subseteq> insert n (set (concat (map snd T)))
          \<and> distinct (concat (map snd T'))"
    proof (cases "map_of T (env_id e)")
      case None
      then have "env_id e \<notin> fst ` set T" by (simp add: map_of_eq_None_iff)
      then show ?thesis
        using None dk v fresh by (auto simp: T'_def)
    next
      case (Some idxs)
      let ?v = "if bw then n # idxs else idxs @ [n]"
      have T': "T' = AList.update (env_id e) ?v T" using Some by (simp add: T'_def)
      have inT: "env_id e \<in> fst ` set T" using Some by (metis map_of_eq_None_iff option.distinct(1))
      have sub: "set idxs \<subseteq> set (concat (map snd T))"
        using Some by (auto dest!: map_of_SomeD intro: bexI[of _ "(env_id e, idxs)"])
      have didx: "distinct idxs" using Some v
        by (auto dest!: map_of_SomeD simp: distinct_concat_iff)
      have dv: "distinct ?v" "set ?v = insert n (set idxs)" using didx fresh sub by auto
      have 1: "fst ` set T' = insert (env_id e) (fst ` set T)"
        using inT by (auto simp: T' update_keys image_iff simp flip: set_map)
      have 2: "distinct (map fst T')" using dk by (simp add: T' distinct_update)
      have 3: "length (concat (map snd T')) = Suc n"
        using concat_update_length[OF Some, of ?v] v by (cases bw) (simp_all add: T')
      have 4: "set (concat (map snd T')) \<subseteq> insert n (set (concat (map snd T)))"
        using concat_update_set[OF Some, of ?v] sub dv(2) unfolding T' by blast
      have 5: "distinct (concat (map snd T'))"
        unfolding T' using concat_update_distinct[OF Some _ dv fresh] v by blast
      from 1 2 3 4 5 show ?thesis by blast
    qed
    then have keys': "fst ` set T' = insert (env_id e) (fst ` set T)"
      and dk': "distinct (map fst T')"
      and len': "length (concat (map snd T')) = Suc n"
      and set': "set (concat (map snd T')) \<subseteq> insert n (set (concat (map snd T)))"
      and dist': "distinct (concat (map snd T'))" by blast+
    have b': "trajectories b' = T' \<and> b_size b' = Suc n
        \<and> length (states b') = Suc n \<and> length (actions b') = Suc n
        \<and> length (b_done b') = Suc n
        \<and> traj_indices b' = traj_indices b @ [env_id e]
        \<and> length (state_indices b') = Suc n
        \<and> fst ` set (envs b') = insert (env_id e) (fst ` set (envs b))"
      using add_sample_result[where tr=tr and e=e and bw=bw and b=b and a=a and m=m] assms(2) True v
      unfolding T'_def T_def n_def by (simp add: x)
    have "is_valid b'"
      unfolding is_valid_iff using b' v keys' len' dist' by auto
    moreover have "list_all (\<lambda>i. i < b_size b') (concat (map snd (trajectories b')))"
    proof -
      have "\<forall>i\<in>set (concat (map snd T')). i < Suc n"
      proof
        fix i assume "i \<in> set (concat (map snd T'))"
        with set' have "i = n \<or> i \<in> set (concat (map snd T))" by blast
        with lt show "i < Suc n" by (metis less_Suc_eq)
      qed
      then show ?thesis using b' by (simp only: list_all_iff)
    qed
    ultimately show ?thesis using b' dk' by (simp add: well_formed_def)
  qed
qed

lemma add_samples_well_formed:
  "well_formed b \<Longrightarrow> add_samples bw tr b xs = Inr b' \<Longrightarrow> well_formed b'"
proof (induction xs arbitrary: b)
  case Nil
  then show ?case by simp
next
  case (Cons x xs)
  from Cons.prems(2) obtain b1 where b1: "add_sample bw tr b x = Inr b1"
    and rest: "add_samples bw tr b1 xs = Inr b'"
    by (auto split: sum.splits)
  from Cons.IH[OF add_sample_well_formed[OF Cons.prems(1) b1] rest] show ?case .
qed

lemma well_formed_continuous: "well_formed (b\<lparr>b_continuous := c\<rparr>) = well_formed b"
  by (simp add: well_formed_def is_valid_def)

lemma add_to_batch_well_formed:
  assumes "well_formed b" "add_to_batch b es acts vs ms bw tr = Inr b'"
  shows "well_formed b'"
proof -
  define b1 where
    "b1 = (if b_continuous b = None then b\<lparr>b_continuous := continuous (hd es)\<rparr> else b)"
  have run: "add_samples bw tr b1
                (zip es (zip acts (zip vs (masks_or_default ms es bw tr)))) = Inr b'"
    using assms(2)
    by (auto simp: add_to_batch_def Let_def b1_def split: if_splits list.splits option.splits)
  have "well_formed b1"
    using assms(1) by (simp add: b1_def well_formed_continuous)
  from add_samples_well_formed[OF this run] show ?thesis .
qed

lemma Batch_init_well_formed: "well_formed (Batch_init e c k)"
  by (simp add: well_formed_def is_valid_def Batch_init_def)

lemma well_formed_is_valid: "well_formed b \<Longrightarrow> is_valid b"
  by (simp add: well_formed_def)

lemma well_formed_indices:
  assumes "well_formed b"
  shows "set (concat (map snd (trajectories b))) = {..<b_size b}"
proof -
  let ?xs = "concat (map snd (trajectories b))"
  have d: "distinct ?xs" and l: "length ?xs = b_size b"
    using assms by (auto simp: well_formed_def is_valid_iff)
  have sub: "set ?xs \<subseteq> {..<b_size b}"
    using assms by (auto simp: well_formed_def list_all_iff)
  have "card (set ?xs) = length ?xs" using d by (rule distinct_card)
  then have "card (set ?xs) = card {..<b_size b}" using l by (simp only: card_lessThan)
  with sub show ?thesis by (intro card_subset_eq) (simp_all only: finite_lessThan)
qed

subsection \<open>merge\<close>

text \<open>
  C1. Two batches, each created empty and given one forward row of an environment with
  id 0, are valid. \<open>merge\<close> shifts the trajectory id of the second to 1 but not its row
  index: after the splice the index lists are \<open>[0]\<close> and \<open>[0]\<close> in a batch of size 2,
  \<open>is_valid\<close> is \<open>False\<close>, and the assertion that ends \<open>merge\<close> fails.
\<close>

theorem merge_breaks_is_valid:
  "and_then (add_to_batch (Batch_init None None None) [env_at 0 [1] True 1] [0] [True] None
               False True)
     (\<lambda>A. and_then (add_to_batch (Batch_init None None None) [env_at 0 [2] True 1] [0] [True]
                        None False True)
     (\<lambda>B. and_then (merge_loop A [B])
     (\<lambda>M. Inr (is_valid A, is_valid B, b_size M, map snd (trajectories M), is_valid M,
               merge A [B]))))
   = Inr (True, True, 2, [[0], [0]], False, Inl AssertionError)"
  by (simp add: batch_defs)

text \<open>
  C6. A batch \<open>A\<close> of two forward trajectories (ids 0 and 1, one row each) and a batch
  \<open>B\<close> of one backward trajectory (id 0, two rows) are valid. The splice gives size 4 and
  the three ids 0, 1, 2, but the rows of \<open>B\<close> keep the indices 1 and 0, which rows of
  \<open>A\<close> have: \<open>is_valid\<close> is \<open>False\<close> and \<open>merge\<close> raises \<open>AssertionError\<close> instead of
  returning the merged batch.
\<close>

theorem merge_nonempty_raises:
  "and_then (add_to_batch (Batch_init None None None)
               [env_at 0 [1] False 1, env_at 1 [2] False 1] [3, 4] [True, True] None False True)
     (\<lambda>A. and_then (backward_calls (Batch_init None None None)
                        [([env_at 0 [5] False 1], [0], [True], None, True),
                         ([env_at 0 [4] False 0], [6], [True], None, True)])
     (\<lambda>B. and_then (merge_loop A [B])
     (\<lambda>M. Inr (is_valid A, is_valid B, b_size A, b_size B, b_size M, trajectories M,
               is_valid M, merge A [B]))))
   = Inr (True, True, 2, 2, 4, [(0, [0]), (1, [1]), (2, [1, 0])], False, Inl AssertionError)"
  by (simp add: batch_defs)

text \<open>
  C7. First: a batch with one terminating row computes its rewards (\<open>[2]\<close>) and is then
  merged with an empty batch, whose rewards are not available. \<open>merge\<close> sets \<open>rewards\<close>
  to \<open>None\<close> and leaves \<open>rewards_available\<close> at \<open>True\<close>, so the next \<open>get_rewards\<close> does
  not recompute: it returns \<open>None\<close>.
  Second: an empty batch computes its forward masks (none) and is merged with a batch of
  one row whose masks are not available. \<open>merge\<close> assigns \<open>masks_forward\<close>, leaves
  \<open>masks_invalid_actions_forward\<close> and its flag as they are, and the next
  \<open>get_masks_forward\<close> returns the empty masks of a batch of size 1.
\<close>

theorem merge_keeps_stale_flags:
  "and_then (add_to_batch
               (Batch_init (Some (GFlowNetEnv_init 0 1 1 ''power'' (Some (map (\<lambda>_. - 2)))))
                  (Some False) (Some False))
               [env_at 0 [1] True 1] [0] [True] None False True)
     (\<lambda>A. and_then (get_rewards A False)
     (\<lambda>(A1, r1). and_then
         (merge A1 [Batch_init (Some (GFlowNetEnv_init 0 1 1 ''power'' (Some (map (\<lambda>_. - 2)))))
                      (Some False) (Some False)])
     (\<lambda>M. and_then (get_rewards M False)
     (\<lambda>(M1, r2). Inr (r1, b_size M, rewards_available M, r2)))))
   = Inr (Some [Some 2], 1, True, None)
   \<and> and_then (get_masks_forward (Batch_init None None None :: (int list, int) Batch) False)
     (\<lambda>(A1, m1). and_then (add_to_batch (Batch_init None None None) [env_at 0 [1] True 1] [0]
                               [True] None False True)
     (\<lambda>B. and_then (merge A1 [B])
     (\<lambda>M. and_then (get_masks_forward M False)
     (\<lambda>(M1, m2). Inr (m1, masks_forward_available B, b_size M, masks_forward_available M,
                     m2)))))
   = Inr ([], False, 1, True, [])"
  by (simp add: batch_defs get_rewards_def compute_rewards_def get_terminating_states_proxy_def
      states2proxy_def statebatch2proxy_def proxy2reward_def shaping_defs
      get_masks_forward_def compute_masks_forward_def)

text \<open>
  C8. In a conditional batch with one row, \<open>states2proxy()\<close> raises \<open>NameError\<close> at the
  first trajectory: after the conversion of its states the loop reads \<open>env_ids\<close> and
  \<open>env_id\<close>. In a conditional batch with no row it raises \<open>RuntimeError\<close>
  (\<open>torch.cat\<close> of no tensor). Only the batch that is not conditional returns rows.
\<close>

theorem states2proxy_conditional_raises:
  "and_then (add_to_batch (Batch_init (Some (env_at 0 [] False 0)) (Some True) (Some False))
               [env_at 0 [1] True 1] [0] [True] None False True)
     (\<lambda>A. states2proxy A None None) = Inl NameError
   \<and> states2proxy (Batch_init (Some (env_at 0 [] False 0)) (Some True) (Some False)) None None
       = Inl RuntimeError
   \<and> and_then (add_to_batch (Batch_init (Some (env_at 0 [] False 0)) (Some False) (Some False))
                  [env_at 0 [1] True 1] [0] [True] None False True)
       (\<lambda>A. states2proxy A None None) = Inr [[1]]"
  by (simp add: batch_defs states2proxy_def get_states_of_trajectory_def statebatch2proxy_def)

subsection \<open>Backward sampling\<close>

lemma add_sample_backward_first:
  assumes "tr \<or> env_done e" "map_of (trajectories b) (env_id e) = None" "parents b = Some ps"
  shows "\<exists>b'. add_sample True tr b (e, a, True, m) = Inr b'
           \<and> parents b' = Some (ps @ [state e]) \<and> b_size b' = b_size b + 1
           \<and> trajectories b' = trajectories b @ [(env_id e, [b_size b])]
           \<and> states b' = states b @ [state e] \<and> b_done b' = b_done b @ [True]"
  using assms by (auto simp: add_sample_def Let_def map_add_def)

lemma add_sample_backward_next:
  assumes "tr \<or> env_done e" "map_of (trajectories b) (env_id e) = Some idxs" "idxs \<noteq> []"
    "parents b = Some ps" "hd idxs < length ps"
  shows "\<exists>b'. add_sample True tr b (e, a, True, m) = Inr b'
           \<and> parents b' = Some (ps @ [state e]) \<and> b_size b' = b_size b + 1
           \<and> trajectories b' = AList.update (env_id e) (b_size b # idxs) (trajectories b)
           \<and> states b' = states b @ [ps ! hd idxs] \<and> b_done b' = b_done b @ [env_done e]"
  using assms by (cases idxs) (auto simp: add_sample_def Let_def update_conv' nth_append map_add_def)

lemma backward_inv_add_sample:
  assumes "backward_inv b hist" "add_sample True tr b (e, a, v, m) = Inr b'"
  shows "backward_inv b' (hist @ rows_of_samples tr [(e, a, v, m)])"
proof (cases "v \<and> (tr \<or> env_done e)")
  case False
  then show ?thesis using assms add_sample_skip[of v tr e True b a m]
    by (auto simp: rows_of_samples_def)
next
  case True
  then have v: "v = True" and tr: "tr \<or> env_done e" by auto
  have rows: "rows_of_samples tr [(e, a, v, m)] = [e]" using True by (simp add: rows_of_samples_def)
  have ps: "parents b = Some (map state hist)" and sz: "b_size b = length hist"
    using assms(1) by (auto simp: backward_inv_def)
  show ?thesis
  proof (cases "map_of (trajectories b) (env_id e)")
    case None
    from add_sample_backward_first[OF tr None ps, of a m] assms(2) v
    have b': "parents b' = Some (map state hist @ [state e])" "b_size b' = b_size b + 1"
      "trajectories b' = trajectories b @ [(env_id e, [b_size b])]" by auto
    have notin: "env_id e \<notin> env_id ` set hist"
      using assms(1) None by (auto simp: backward_inv_def split: option.splits dest: spec[of _ "env_id e"])
    show ?thesis unfolding rows backward_inv_def
    proof (intro conjI allI)
      fix i
      show "case map_of (trajectories b') i of None \<Rightarrow> i \<notin> env_id ` set (hist @ [e])
          | Some idxs \<Rightarrow> idxs \<noteq> [] \<and> hd idxs < length (hist @ [e])
              \<and> (hist @ [e]) ! hd idxs = last (filter (\<lambda>e. env_id e = i) (hist @ [e]))
              \<and> i \<in> env_id ` set (hist @ [e])"
      proof (cases "i = env_id e")
        case True
        then show ?thesis using None b' sz by (simp add: map_add_def)
      next
        case False
        have "case map_of (trajectories b) i of None \<Rightarrow> i \<notin> env_id ` set hist
          | Some idxs \<Rightarrow> idxs \<noteq> [] \<and> hd idxs < length hist
              \<and> hist ! hd idxs = last (filter (\<lambda>e. env_id e = i) hist)
              \<and> i \<in> env_id ` set hist" using assms(1) by (simp add: backward_inv_def)
        then show ?thesis using False b'
          by (auto simp: map_add_def nth_append split: option.splits)
      qed
    qed (use b' sz in auto)
  next
    case (Some idxs)
    have inv_i: "idxs \<noteq> [] \<and> hd idxs < length hist
              \<and> hist ! hd idxs = last (filter (\<lambda>x. env_id x = env_id e) hist)"
      using assms(1) Some by (auto simp: backward_inv_def split: option.splits dest: spec[of _ "env_id e"])
    then have "hd idxs < length (map state hist)" by simp
    from add_sample_backward_next[OF tr Some _ ps this, of a m] inv_i assms(2) v
    have b': "parents b' = Some (map state hist @ [state e])" "b_size b' = b_size b + 1"
      "trajectories b' = AList.update (env_id e) (b_size b # idxs) (trajectories b)" by auto
    show ?thesis unfolding rows backward_inv_def
    proof (intro conjI allI)
      fix i
      show "case map_of (trajectories b') i of None \<Rightarrow> i \<notin> env_id ` set (hist @ [e])
          | Some idxs \<Rightarrow> idxs \<noteq> [] \<and> hd idxs < length (hist @ [e])
              \<and> (hist @ [e]) ! hd idxs = last (filter (\<lambda>e. env_id e = i) (hist @ [e]))
              \<and> i \<in> env_id ` set (hist @ [e])"
      proof (cases "i = env_id e")
        case True
        then show ?thesis using b' sz by (simp add: update_conv')
      next
        case False
        have "case map_of (trajectories b) i of None \<Rightarrow> i \<notin> env_id ` set hist
          | Some idxs \<Rightarrow> idxs \<noteq> [] \<and> hd idxs < length hist
              \<and> hist ! hd idxs = last (filter (\<lambda>e. env_id e = i) hist)
              \<and> i \<in> env_id ` set hist" using assms(1) by (simp add: backward_inv_def)
        then show ?thesis using False b'
          by (auto simp: update_conv' nth_append split: option.splits)
      qed
    qed (use b' sz in auto)
  qed
qed


lemma rows_of_samples_Cons:
  "rows_of_samples tr (x # xs) = rows_of_samples tr [x] @ rows_of_samples tr xs"
  by (simp add: rows_of_samples_def)

lemma backward_inv_add_samples:
  "backward_inv b hist \<Longrightarrow> add_samples True tr b xs = Inr b'
     \<Longrightarrow> backward_inv b' (hist @ rows_of_samples tr xs)"
proof (induction xs arbitrary: b hist)
  case Nil
  then show ?case by (simp add: rows_of_samples_def)
next
  case (Cons x xs)
  obtain e a v m where x: "x = (e, a, v, m)" by (cases x) auto
  from Cons.prems(2) obtain b1 where b1: "add_sample True tr b (e, a, v, m) = Inr b1"
    and rest: "add_samples True tr b1 xs = Inr b'"
    by (auto simp: x split: sum.splits)
  have "backward_inv b1 (hist @ rows_of_samples tr [(e, a, v, m)])"
    by (rule backward_inv_add_sample[OF Cons.prems(1) b1])
  from Cons.IH[OF this rest] show ?case
    by (simp add: x rows_of_samples_Cons[of tr "(e, a, v, m)" xs])
qed

lemma backward_inv_continuous:
  "backward_inv (b\<lparr>b_continuous := c\<rparr>) hist = backward_inv b hist"
  by (simp add: backward_inv_def)

lemma backward_inv_add_to_batch:
  assumes "backward_inv b hist" "add_to_batch b es acts vs ms True tr = Inr b'"
  shows "backward_inv b'
           (hist @ rows_of_samples tr (zip es (zip acts (zip vs (masks_or_default ms es True tr)))))"
proof -
  define b1 where
    "b1 = (if b_continuous b = None then b\<lparr>b_continuous := continuous (hd es)\<rparr> else b)"
  have run: "add_samples True tr b1
                (zip es (zip acts (zip vs (masks_or_default ms es True tr)))) = Inr b'"
    using assms(2)
    by (auto simp: add_to_batch_def Let_def b1_def split: if_splits list.splits option.splits)
  have "backward_inv b1 hist"
    using assms(1) by (simp add: b1_def backward_inv_continuous)
  from backward_inv_add_samples[OF this run] show ?thesis .
qed

lemma backward_inv_calls:
  "backward_inv b hist \<Longrightarrow> backward_calls b cs = Inr b'
     \<Longrightarrow> backward_inv b' (hist @ recorded cs)"
proof (induction cs arbitrary: b hist)
  case Nil
  then show ?case by simp
next
  case (Cons c cs)
  obtain es acts vs ms tr where c: "c = (es, acts, vs, ms, tr)" by (cases c) auto
  from Cons.prems(2) obtain b1 where b1: "add_to_batch b es acts vs ms True tr = Inr b1"
    and rest: "backward_calls b1 cs = Inr b'"
    by (auto simp: c split: sum.splits)
  from Cons.IH[OF backward_inv_add_to_batch[OF Cons.prems(1) b1] rest] show ?case
    by (simp add: c)
qed

lemma backward_inv_init: "backward_inv (Batch_init e c k) []"
  by (simp add: backward_inv_def Batch_init_def)

text \<open>
  A call of \<open>add_to_batch\<close> with one valid tuple is one run of the loop body, on the
  batch with its attribute \<open>continuous\<close> set.
\<close>

lemma add_to_batch_single:
  assumes "b_continuous b \<noteq> None \<or> continuous env \<noteq> None" and "masks_arg \<noteq> Some []"
  shows "\<exists>c m. add_to_batch b [env] [action] [True] masks_arg bw train
                 = add_sample bw train (b\<lparr>b_continuous := c\<rparr>) (env, action, True, m)"
proof -
  have "masks_or_default masks_arg [env] bw train \<noteq> []"
    using assms(2) by (cases masks_arg) (auto simp: masks_or_default_def)
  then obtain m ms where "masks_or_default masks_arg [env] bw train = m # ms"
    by (cases "masks_or_default masks_arg [env] bw train") auto
  then have zipped:
    "zip [env] (zip [action] (zip [True] (masks_or_default masks_arg [env] bw train)))
      = [(env, action, True, m)]" by simp
  show ?thesis
  proof (cases "b_continuous b")
    case None
    with assms(1) obtain c where c: "continuous env = Some c" by auto
    have "add_to_batch b [env] [action] [True] masks_arg bw train
            = add_sample bw train (b\<lparr>b_continuous := Some c\<rparr>) (env, action, True, m)"
      by (simp add: add_to_batch_def None c zipped split: sum.split)
    then show ?thesis by blast
  next
    case (Some k)
    have "b\<lparr>b_continuous := b_continuous b\<rparr> = b" by simp
    then have same: "b\<lparr>b_continuous := Some k\<rparr> = b" by (simp only: Some)
    have "add_to_batch b [env] [action] [True] masks_arg bw train
            = add_sample bw train (b\<lparr>b_continuous := Some k\<rparr>) (env, action, True, m)"
      unfolding same using Some by (simp add: add_to_batch_def zipped split: sum.split)
    then show ?thesis by blast
  qed
qed

text \<open>
  The first backward row of a trajectory, in any batch whose \<open>parents\<close> is a list: the
  call returns, the trajectory is the new index, the stored state is the state of the
  environment and the stored flag is \<open>True\<close>, whatever the flag of the environment.
\<close>

lemma first_row_done_any_batch:
  assumes "parents b = Some ps"
    and "b_continuous b \<noteq> None \<or> continuous env \<noteq> None"
    and "train \<or> env_done env" and "masks_arg \<noteq> Some []"
    and "map_of (trajectories b) (env_id env) = None"
  shows "\<exists>b'. add_to_batch b [env] [action] [True] masks_arg True train = Inr b'
           \<and> b_size b' = b_size b + 1
           \<and> map_of (trajectories b') (env_id env) = Some [b_size b]
           \<and> states b' = states b @ [state env]
           \<and> b_done b' = b_done b @ [True]"
proof -
  from add_to_batch_single[OF assms(2,4), of action True train]
  obtain c m where run: "add_to_batch b [env] [action] [True] masks_arg True train
      = add_sample True train (b\<lparr>b_continuous := c\<rparr>) (env, action, True, m)" by blast
  have "map_of (trajectories (b\<lparr>b_continuous := c\<rparr>)) (env_id env) = None"
    "parents (b\<lparr>b_continuous := c\<rparr>) = Some ps" using assms(1,5) by simp_all
  from add_sample_backward_first[OF assms(3) this, of action m]
  show ?thesis using assms(5) by (auto simp: run map_add_def)
qed

text \<open>
  A later backward row of a trajectory, in any batch whose \<open>parents\<close> is a list \<open>ps\<close>: the
  new index is put in front of the index list of the trajectory and the stored flag is
  that of the environment. The stored state is read from \<open>parents\<close>, after the state of
  the environment has been appended to it, at the batch index \<open>j\<close> of the previous
  first row of the trajectory. The call raises \<open>IndexError\<close> when \<open>j\<close> is past the end.
\<close>

lemma add_sample_backward_prepend:
  assumes "tr \<or> env_done e" "map_of (trajectories b) (env_id e) = Some (j # rest)"
    "parents b = Some ps" "j \<le> length ps"
  shows "\<exists>b'. add_sample True tr b (e, a, True, m) = Inr b'
           \<and> b_size b' = b_size b + 1
           \<and> trajectories b' = AList.update (env_id e) (b_size b # j # rest) (trajectories b)
           \<and> states b' = states b @ [(ps @ [state e]) ! j]
           \<and> b_done b' = b_done b @ [env_done e]"
  using assms by (auto simp: add_sample_def Let_def update_conv' map_add_def)

lemma prepend_any_batch:
  assumes "parents b = Some ps"
    and "b_continuous b \<noteq> None \<or> continuous env \<noteq> None"
    and "train \<or> env_done env" and "masks_arg \<noteq> Some []"
    and "map_of (trajectories b) (env_id env) = Some (j # rest)" and "j \<le> length ps"
  shows "\<exists>b'. add_to_batch b [env] [action] [True] masks_arg True train = Inr b'
           \<and> b_size b' = b_size b + 1
           \<and> map_of (trajectories b') (env_id env) = Some (b_size b # j # rest)
           \<and> states b' = states b @ [(ps @ [state env]) ! j]
           \<and> b_done b' = b_done b @ [env_done env]"
proof -
  from add_to_batch_single[OF assms(2,4), of action True train]
  obtain c m where run: "add_to_batch b [env] [action] [True] masks_arg True train
      = add_sample True train (b\<lparr>b_continuous := c\<rparr>) (env, action, True, m)" by blast
  have "map_of (trajectories (b\<lparr>b_continuous := c\<rparr>)) (env_id env) = Some (j # rest)"
    "parents (b\<lparr>b_continuous := c\<rparr>) = Some ps" using assms(1,5) by simp_all
  from add_sample_backward_prepend[OF assms(3) this assms(6), of action m]
  show ?thesis by (auto simp: run update_conv')
qed

text \<open>
  \<open>parents\<close> has one entry for each backward row and none for a forward row, but it is
  read at a batch index. When the previous first row of the trajectory has the batch
  index \<open>length ps\<close> (as many rows of the batch are forward rows as backward rows of
  the batch come after it, for instance one forward row and then the row of the
  trajectory), the entry read is the one just appended: the stored state is the state
  of the environment itself.
\<close>

lemma backward_row_stores_own_state:
  assumes "parents b = Some ps"
    and "b_continuous b \<noteq> None \<or> continuous env \<noteq> None"
    and "train \<or> env_done env" and "masks_arg \<noteq> Some []"
    and "map_of (trajectories b) (env_id env) = Some (length ps # rest)"
  shows "\<exists>b'. add_to_batch b [env] [action] [True] masks_arg True train = Inr b'
           \<and> states b' = states b @ [state env]"
  using prepend_any_batch[OF assms(1-5), of action] by auto

text \<open>
  A batch \<open>b\<close> built from an empty batch by backward calls of \<open>add_to_batch\<close> alone has
  one entry of \<open>parents\<close> for each row. There a valid tuple added backward (in training,
  or with an environment that is done) adds one row, and for a trajectory that exists
  the stored state is the state that the environment of the latest earlier row of this
  trajectory had when that row was added.
\<close>

lemma backward_add_row:
  assumes "backward_calls (Batch_init env0 cond cont) calls = Inr b"
    and "b_continuous b \<noteq> None \<or> continuous env \<noteq> None"
    and "train \<or> env_done env" and "masks_arg \<noteq> Some []"
  shows "\<exists>b'. add_to_batch b [env] [action] [True] masks_arg True train = Inr b'
           \<and> b_size b' = b_size b + 1
           \<and> (case map_of (trajectories b) (env_id env) of
                 None \<Rightarrow>
                   map_of (trajectories b') (env_id env) = Some [b_size b]
                   \<and> states b' = states b @ [state env]
                   \<and> b_done b' = b_done b @ [True]
               | Some idxs \<Rightarrow>
                   map_of (trajectories b') (env_id env) = Some (b_size b # idxs)
                   \<and> states b' = states b
                        @ [state (last (filter (\<lambda>e. env_id e = env_id env) (recorded calls)))]
                   \<and> b_done b' = b_done b @ [env_done env])"
proof -
  have inv: "backward_inv b (recorded calls)"
    using backward_inv_calls[OF backward_inv_init assms(1)] by simp
  then have ps: "parents b = Some (map state (recorded calls))"
    by (simp add: backward_inv_def)
  show ?thesis
  proof (cases "map_of (trajectories b) (env_id env)")
    case None
    from first_row_done_any_batch[OF ps assms(2-4) None, of action]
    show ?thesis using None by auto
  next
    case (Some idxs)
    have inv_i: "idxs \<noteq> [] \<and> hd idxs < length (recorded calls)
              \<and> recorded calls ! hd idxs = last (filter (\<lambda>x. env_id x = env_id env) (recorded calls))"
      using inv Some by (auto simp: backward_inv_def split: option.splits dest: spec[of _ "env_id env"])
    then obtain j rest where idxs: "idxs = j # rest" by (cases idxs) auto
    have j: "j < length (recorded calls)"
      "recorded calls ! j = last (filter (\<lambda>x. env_id x = env_id env) (recorded calls))"
      using inv_i by (simp_all add: idxs)
    have S: "map_of (trajectories b) (env_id env) = Some (j # rest)" using Some idxs by simp
    have le: "j \<le> length (map state (recorded calls))" using j(1) by simp
    from prepend_any_batch[OF ps assms(2-4) S le, of action] j
    show ?thesis using Some idxs by (auto simp: nth_append)
  qed
qed

lemma backward_add_row_example:
  "(\<exists>b'. add_to_batch (Batch_init None None None) [env_at 0 [5] False 1] [0] [True] None True True
            = Inr b'
        \<and> b_done b' = [True] \<and> states b' = [[5]] \<and> trajectories b' = [(0, [0])])
   \<and> (\<exists>b b'. backward_calls (Batch_init None None None)
               [([env_at 0 [5] False 1], [0], [True], None, True)] = Inr b
        \<and> add_to_batch b [env_at 0 [4] False 0] [6] [True] None True True = Inr b'
        \<and> map_of (trajectories b') 0 = Some [1, 0]
        \<and> states b' = [[5], [5]] \<and> b_done b' = [True, False])"
  by (simp add: batch_defs)

text \<open>
  C4. A backward row added to a trajectory that exists does not store the previous
  state of the trajectory when the batch also holds a forward row. After a forward row
  of trajectory 0 (state \<open>[9]\<close>) and a first backward row of trajectory 1 (environment
  in state \<open>[2]\<close>), the next backward row of trajectory 1 (environment in state \<open>[1]\<close>)
  is put in front of the index list, which becomes \<open>[2, 1]\<close>, but the state it stores
  is \<open>[1]\<close>, the state of the environment itself, not the previous state \<open>[2]\<close>:
  \<open>parents\<close> is read at the batch index 1 and has no entry for the forward row. In a
  batch that comes out of \<open>merge\<close>, \<open>parents\<close> is \<open>None\<close> and a backward row, also the
  first of its trajectory, raises \<open>AttributeError\<close> and is not stored.
\<close>

theorem backward_add_stores_own_state:
  "and_then (add_to_batch (Batch_init None None None) [env_at 0 [9] False 1] [5] [True] None
               False True)
     (\<lambda>b1. and_then (add_to_batch b1 [env_at 1 [2] False 1] [0] [True] None True True)
     (\<lambda>b2. and_then (add_to_batch b2 [env_at 1 [1] False 0] [3] [True] None True True)
     (\<lambda>b3. Inr (map_of (trajectories b3) 1, states b3,
                last (states b3) = state (env_at 1 [2] False 1)))))
   = Inr (Some [2, 1], [[9], [2], [1]], False)
   \<and> and_then (merge (Batch_init None None None) [Batch_init None None None])
       (\<lambda>M. add_to_batch M [env_at 0 [5] False 1] [0] [True] None True True)
     = Inl AttributeError"
  by (simp add: batch_defs Let_def)


section \<open>Properties of sampling\<close>


lemma masked_fill_nth:
  "same_shape t m \<Longrightarrow> i < length t \<Longrightarrow> j < length (t ! i)
     \<Longrightarrow> masked_fill t m v ! i ! j = (if m ! i ! j then v else t ! i ! j)"
proof -
  assume s: "same_shape t m" and i: "i < length t" and j: "j < length (t ! i)"
  from s have "length (map length m) = length (map length t)" by (simp add: same_shape_def)
  then have l: "length m = length t" by simp
  from s have "map length t ! i = map length m ! i" by (simp add: same_shape_def)
  with i l have li: "length (m ! i) = length (t ! i)" by simp
  show ?thesis using i j l li by (simp add: masked_fill_def)
qed









section \<open>Properties of the replay buffer\<close>

lemma np_max_Some: "np_max xs = Some m \<Longrightarrow> m \<in> set xs \<and> (\<forall>x\<in>set xs. x \<le> m)"
proof -
  assume a: "np_max xs = Some m"
  then obtain x r where xs: "xs = x # r" and m: "m = fold max r x"
    by (auto simp: np_max_def split: list.splits)
  have "m = Max (set xs)" using Max.set_eq_fold[of x r] by (simp add: xs m)
  then show ?thesis using xs by (metis Max_ge Max_in List.finite_set empty_iff list.set_intros(1))
qed

lemma np_min_Some: "np_min xs = Some m \<Longrightarrow> m \<in> set xs \<and> (\<forall>x\<in>set xs. m \<le> x)"
proof -
  assume a: "np_min xs = Some m"
  then obtain x r where xs: "xs = x # r" and m: "m = fold min r x"
    by (auto simp: np_min_def split: list.splits)
  have "m = Min (set xs)" using Min.set_eq_fold[of x r] by (simp add: xs m)
  then show ?thesis using xs by (metis Min_le Min_in List.finite_set empty_iff list.set_intros(1))
qed

lemma np_min_None: "np_min xs = None \<longleftrightarrow> xs = []"
  by (simp add: np_min_def split: list.splits)

lemma first_index_nth: "a \<in> set xs \<Longrightarrow> first_index a xs < length xs \<and> xs ! first_index a xs = a"
  by (induction xs) auto

lemma filter_update_less:
  "i < length xs \<Longrightarrow> P (xs ! i) \<Longrightarrow> \<not> P v
     \<Longrightarrow> length (filter P (xs[i := v])) < length (filter P xs)"
proof (induction xs arbitrary: i)
  case Nil
  then show ?case by simp
next
  case (Cons x xs)
  show ?case
  proof (cases i)
    case 0
    then show ?thesis using Cons.prems by simp
  next
    case (Suc k)
    then show ?thesis using Cons.prems Cons.IH[of k] by simp
  qed
qed

lemma filter_above_mono:
  "(mn::real) \<le> mn' \<Longrightarrow> length (filter (\<lambda>r. mn' < r) xs) \<le> length (filter (\<lambda>r. mn < r) xs)"
  by (induction xs) auto


lemma working_copy_refl: "working_copy rews rews"
  by (simp add: working_copy_def)

lemma working_copy_update:
  "working_copy rews new \<Longrightarrow> working_copy rews (new[i := - 1])"
  by (cases "i < length new") (auto simp: working_copy_def nth_list_update)

lemma working_copy_nth:
  "working_copy rews new \<Longrightarrow> i < length new \<Longrightarrow> new ! i \<noteq> - 1 \<Longrightarrow> rews ! i = new ! i"
  by (auto simp: working_copy_def)

text \<open>One iteration keeps both invariants and lowers the number of candidates above the minimum.\<close>

lemma iteration:
  assumes inv: "replay_inv replay" and wc: "working_copy rews new"
    and mx: "np_max new = Some mx" and mn: "np_min (map row_reward replay) = Some mn"
    and gt: "mn < mx" and row: "row_reward row = rews ! first_index mx new"
  shows "replay_inv (replay[k := row])
       \<and> working_copy rews (new[first_index mx new := - 1])
       \<and> candidates_above (replay[k := row]) (new[first_index mx new := - 1])
           < candidates_above replay new"
proof -
  define idx where "idx = first_index mx new"
  define replay' where "replay' = replay[k := row]"
  have mn_ge: "- 1 \<le> mn"
    using np_min_Some[OF mn] inv by (auto simp: replay_inv_def list_all_iff)
  have mn_le: "\<forall>r\<in>set replay. mn \<le> row_reward r"
    using np_min_Some[OF mn] by auto
  have idx: "idx < length new" "new ! idx = mx"
    using np_max_Some[OF mx] first_index_nth[of mx new] by (auto simp: idx_def)
  have "new ! idx \<noteq> - 1" using idx gt mn_ge by simp
  then have rew: "rews ! idx = mx" using working_copy_nth[OF wc idx(1)] idx(2) by simp
  have sub: "\<forall>r\<in>set replay'. mn \<le> row_reward r"
  proof
    fix r assume "r \<in> set replay'"
    then have "r \<in> insert row (set replay)"
      unfolding replay'_def using set_update_subset_insert by fastforce
    then show "mn \<le> row_reward r" using mn_le rew gt row by (auto simp: idx_def)
  qed
  have 1: "replay_inv replay'"
    using sub mn_ge by (auto simp: replay_inv_def list_all_iff)
  have 2: "working_copy rews (new[idx := - 1])" by (rule working_copy_update[OF wc])
  have ne: "replay' \<noteq> []" using mn by (auto simp: replay'_def np_min_def)
  then obtain mn' where mn': "np_min (map row_reward replay') = Some mn'"
    by (cases "np_min (map row_reward replay')") (auto simp: np_min_None)
  have "mn' \<in> row_reward ` set replay'" using np_min_Some[OF mn'] by auto
  then have le: "mn \<le> mn'" using sub by auto
  have "length (filter (\<lambda>r. mn' < r) (new[idx := - 1]))
          \<le> length (filter (\<lambda>r. mn < r) (new[idx := - 1]))"
    by (rule filter_above_mono[OF le])
  also have "\<dots> < length (filter (\<lambda>r. mn < r) new)"
    by (rule filter_update_less) (use idx gt mn_ge in auto)
  finally have 3: "candidates_above replay' (new[idx := - 1]) < candidates_above replay new"
    by (simp add: candidates_above_def mn mn')
  from 1 2 3 show ?thesis by (simp add: idx_def replay'_def)
qed

lemma add_greater_loop_returns:
  "replay_inv replay \<Longrightarrow> working_copy rews new \<Longrightarrow> candidates_above replay new < fuel
     \<Longrightarrow> \<exists>res. add_greater_loop s2r p2r sts paths rews energies it fuel replay new = Some res"
proof (induction fuel arbitrary: replay new)
  case 0
  then show ?case by simp
next
  case (Suc fuel)
  show ?case
  proof (cases "np_max new")
    case None
    then show ?thesis by simp
  next
    case mx: (Some mx)
    show ?thesis
    proof (cases "np_min (map row_reward replay)")
      case None
      then show ?thesis using mx by simp
    next
      case mn: (Some mn)
      show ?thesis
      proof (cases "mn < mx")
        case False
        then show ?thesis using mx mn by simp
      next
        case True
        let ?idx = "first_index mx new"
        let ?row = "\<lparr>row_state = Some (s2r (sts ! ?idx)), row_path = Some (p2r (paths ! ?idx)),
                     row_reward = rews ! ?idx, row_energy = Some (energies ! ?idx),
                     row_iter = Some it\<rparr>"
        let ?replay' = "replay[first_index mn (map row_reward replay) := ?row]"
        have "row_reward ?row = rews ! ?idx" by simp
        note it = iteration[OF Suc.prems(1,2) mx mn True this,
            of "first_index mn (map row_reward replay)"]
        then have it: "replay_inv ?replay'" "working_copy rews (new[?idx := - 1])"
          "candidates_above ?replay' (new[?idx := - 1]) < candidates_above replay new"
          by simp_all
        have "candidates_above ?replay' (new[?idx := - 1]) < fuel"
          using it(3) Suc.prems(3) by simp
        from Suc.IH[OF it(1) it(2) this] show ?thesis
          using mx mn True by (simp add: Let_def)
      qed
    qed
  qed
qed

lemma add_greater_loop_inv:
  "replay_inv replay \<Longrightarrow> working_copy rews new
     \<Longrightarrow> add_greater_loop s2r p2r sts paths rews energies it fuel replay new = Some (replay', e)
     \<Longrightarrow> replay_inv replay'"
proof (induction fuel arbitrary: replay new)
  case 0
  then show ?case by simp
next
  case (Suc fuel)
  show ?case
  proof (cases "np_max new")
    case None
    then show ?thesis using Suc.prems by simp
  next
    case mx: (Some mx)
    show ?thesis
    proof (cases "np_min (map row_reward replay)")
      case None
      then show ?thesis using mx Suc.prems by simp
    next
      case mn: (Some mn)
      show ?thesis
      proof (cases "mn < mx")
        case False
        then show ?thesis using mx mn Suc.prems by simp
      next
        case True
        let ?idx = "first_index mx new"
        let ?row = "\<lparr>row_state = Some (s2r (sts ! ?idx)), row_path = Some (p2r (paths ! ?idx)),
                     row_reward = rews ! ?idx, row_energy = Some (energies ! ?idx),
                     row_iter = Some it\<rparr>"
        let ?replay' = "replay[first_index mn (map row_reward replay) := ?row]"
        have "row_reward ?row = rews ! ?idx" by simp
        note it = iteration[OF Suc.prems(1,2) mx mn True this,
            of "first_index mn (map row_reward replay)"]
        then have it: "replay_inv ?replay'" "working_copy rews (new[?idx := - 1])"
          by simp_all
        show ?thesis
          using Suc.prems(1,3) Suc.IH[OF it(1) it(2)] mx mn True
          by (auto simp: Let_def split: if_splits)
      qed
    qed
  qed
qed

lemma replay_reachable_inv:
  "replay_reachable s2r p2r replay \<Longrightarrow> replay_inv replay"
proof (induction rule: replay_reachable.induct)
  case (init replay_capacity)
  then show ?case by (simp add: replay_inv_def Buffer_replay_init_def list_all_iff)
next
  case (step replay fuel sts paths rews energies it replay' e)
  then show ?case
    using add_greater_loop_inv[OF step.IH working_copy_refl] by (simp add: add_greater_def)
qed

text \<open>
  C10. For the data frame of any buffer and any candidates, \<open>_add_greater\<close> ends, by
  returning or by raising: the loop tests its condition at most once more than there are
  candidates whose reward exceeds the minimum of the reservoir, so with more fuel than
  that number the result is not \<open>None\<close>.
\<close>

theorem add_greater_terminates:
  assumes "replay_reachable state2readable path2readable replay"
    and "candidates_above replay rews < fuel"
  shows "\<exists>res. add_greater fuel state2readable path2readable replay sts paths rews energies it
           = Some res"
  unfolding add_greater_def
  by (rule add_greater_loop_returns[OF replay_reachable_inv[OF assms(1)] working_copy_refl assms(2)])

theorem add_greater_terminates_witness:
  "candidates_above (Buffer_replay_init 3 :: (int, int) replay_row list) [5, 3, 9, 1, 7] = 5
   \<and> (\<exists>res. add_greater 6 (\<lambda>s :: int. s) (\<lambda>p :: int. p) (Buffer_replay_init 3)
               [50, 30, 90, 10, 70] [51, 31, 91, 11, 71] [5, 3, 9, 1, 7] [-5, -3, -9, -1, -7] 4
             = Some res
           \<and> map row_reward (fst res) = [9, 7, 5] \<and> snd res = None)"
proof -
  have c: "candidates_above (Buffer_replay_init 3 :: (int, int) replay_row list) [5, 3, 9, 1, 7] = 5"
    by (simp add: candidates_above_def Buffer_replay_init_def np_min_def numeral_3_eq_3)
  then have "candidates_above (Buffer_replay_init 3 :: (int, int) replay_row list) [5, 3, 9, 1, 7] < 6"
    by simp
  from add_greater_terminates[OF replay_reachable.init this, of "\<lambda>s. s" "\<lambda>p. p"
      "[50, 30, 90, 10, 70]" "[51, 31, 91, 11, 71]" "[-5, -3, -9, -1, -7]" 4]
  obtain res where r: "add_greater 6 (\<lambda>s :: int. s) (\<lambda>p :: int. p) (Buffer_replay_init 3)
               [50, 30, 90, 10, 70] [51, 31, 91, 11, 71] [5, 3, 9, 1, 7] [-5, -3, -9, -1, -7] 4
             = Some res" by blast
  have "add_greater 6 (\<lambda>s :: int. s) (\<lambda>p :: int. p) (Buffer_replay_init 3)
               [50, 30, 90, 10, 70] [51, 31, 91, 11, 71] [5, 3, 9, 1, 7] [-5, -3, -9, -1, -7] 4
        = Some ([\<lparr>row_state = Some 90, row_path = Some 91, row_reward = 9, row_energy = Some (- 9),
                   row_iter = Some 4\<rparr>,
                 \<lparr>row_state = Some 70, row_path = Some 71, row_reward = 7, row_energy = Some (- 7),
                   row_iter = Some 4\<rparr>,
                 \<lparr>row_state = Some 50, row_path = Some 51, row_reward = 5, row_energy = Some (- 5),
                   row_iter = Some 4\<rparr>], None)"
    by (simp add: add_greater_def Buffer_replay_init_def np_min_def np_max_def numeral_3_eq_3
        eval_nat_numeral Let_def)
  with r c show ?thesis by auto
qed


end
